theory Spec2Isabelle
  imports Complex_Main
begin

section \<open>Data model\<close>

text \<open>
  The notebooks compute with NumPy arrays. A one-dimensional array is a list, a
  two-dimensional array is the list of its rows, a three-dimensional array the list of
  its matrices. Array entries are modelled as real numbers: rounding and overflow of the
  64-bit floating-point numbers are not part of the model. An adjacency matrix is an
  integer array, as \<open>np.random.randint\<close> makes it.

  A list of rows cannot tell the shapes \<open>(0, k)\<close> apart for different \<open>k\<close>; the
  statements below are about matrices with at least one row where that matters.
\<close>

type_synonym vec = "real list"
type_synonym matrix = "real list list"
type_synonym tensor = "real list list list"
type_synonym adjacency = "int list list"

text \<open>The exceptions the NumPy calls of the notebooks can raise.\<close>

datatype error = ValueError | AssertionError | IndexError

text \<open>\<open>z.shape\<close> distinguishes the two branches of \<open>softmax\<close>.\<close>

datatype ndarray = Vec vec | Mat matrix

definition ncols :: "'a list list \<Rightarrow> nat" where
  "ncols M = (case M of [] \<Rightarrow> 0 | r # _ \<Rightarrow> length r)"

text \<open>A matrix of \<open>n\<close> rows and \<open>k\<close> columns.\<close>

definition is_mat :: "nat \<Rightarrow> nat \<Rightarrow> 'a list list \<Rightarrow> bool" where
  "is_mat n k M \<longleftrightarrow> length M = n \<and> list_all (\<lambda>r. length r = k) M"

definition column :: "'a list list \<Rightarrow> nat \<Rightarrow> 'a list" where
  "column M j = map (\<lambda>r. r ! j) M"

section \<open>Errors as values\<close>

text \<open>An exception ends the computation: the first error is the result.\<close>

definition and_then :: "error + 'a \<Rightarrow> ('a \<Rightarrow> error + 'b) \<Rightarrow> error + 'b" where
  "and_then m f = (case m of Inl e \<Rightarrow> Inl e | Inr x \<Rightarrow> f x)"

fun sequence :: "(error + 'a) list \<Rightarrow> error + 'a list" where
  "sequence [] = Inr []"
| "sequence (m # ms) = and_then m (\<lambda>x. and_then (sequence ms) (\<lambda>xs. Inr (x # xs)))"

section \<open>Array operations of NumPy\<close>

text \<open>\<open>M.T\<close>\<close>

definition T :: "'a list list \<Rightarrow> 'a list list" where
  "T M = map (column M) [0..<ncols M]"

text \<open>
  \<open>a.dot(b)\<close> for two matrices: every row of \<open>a\<close> must be as long as \<open>b\<close> has rows,
  otherwise NumPy raises \<open>ValueError\<close> (shapes not aligned).
\<close>

definition dot :: "('a::{comm_monoid_add,times}) list list \<Rightarrow> 'a list list \<Rightarrow> error + 'a list list" where
  "dot a b =
     (if list_all (\<lambda>r. length r = length b) a
      then Inr (map (\<lambda>r. map (\<lambda>j. \<Sum>k\<leftarrow>[0..<length b]. r ! k * b ! k ! j) [0..<ncols b]) a)
      else Inl ValueError)"

text \<open>\<open>np.zeros((n, k))\<close>\<close>

definition zeros :: "nat \<Rightarrow> nat \<Rightarrow> matrix" where
  "zeros n k = replicate n (replicate k 0)"

text \<open>\<open>z[idx]\<close> with an index array: the rows of \<open>z\<close> at these indices, \<open>IndexError\<close> out of bounds.\<close>

definition take_rows :: "matrix \<Rightarrow> nat list \<Rightarrow> error + matrix" where
  "take_rows z idx =
     (if list_all (\<lambda>i. i < length z) idx then Inr (map (\<lambda>i. z ! i) idx) else Inl IndexError)"

text \<open>
  \<open>M[rows, cols] = vals\<close> with index arrays: the values are stored one after the other;
  a single value is broadcast to every coordinate, any other length mismatch raises
  \<open>ValueError\<close>.
\<close>

definition put :: "matrix \<Rightarrow> (nat \<times> nat) \<times> real \<Rightarrow> matrix" where
  "put M cv = M[fst (fst cv) := (M ! fst (fst cv))[snd (fst cv) := snd cv]]"

definition set_at :: "matrix \<Rightarrow> (nat \<times> nat) list \<Rightarrow> vec \<Rightarrow> error + matrix" where
  "set_at M coords vals =
     (if length vals = length coords then Inr (foldl put M (zip coords vals))
      else if length vals = 1 then Inr (foldl put M (map (\<lambda>c. (c, hd vals)) coords))
      else Inl ValueError)"

section \<open>Basic functions (gat.ipynb)\<close>

text \<open>\<open>np.where(z > 0, z, z * 0.01)\<close>, on one entry.\<close>

definition leaky_relu :: "real \<Rightarrow> real" where
  "leaky_relu z = (if z > 0 then z else z * 0.01)"

text \<open>\<open>np.max\<close> of a vector raises \<open>ValueError\<close> on a zero-size array.\<close>

fun np_max :: "vec \<Rightarrow> error + real" where
  "np_max [] = Inl ValueError"
| "np_max (x # xs) = Inr (foldl max x xs)"

text \<open>
  The vector branch of \<open>softmax\<close>:
  \<open>a = np.exp(z - np.max(z)) / sum(np.exp(z - np.max(z)))\<close>, then
  \<open>assert a.shape == z.shape\<close>.
\<close>

definition softmax_vector :: "vec \<Rightarrow> error + vec" where
  "softmax_vector z =
     (case np_max z of
        Inl err \<Rightarrow> Inl err
      | Inr vector_max_value \<Rightarrow>
          let a = map (\<lambda>x. exp (x - vector_max_value)
                             / (\<Sum>y\<leftarrow>z. exp (y - vector_max_value))) z
          in if length a = length z then Inr a else Inl AssertionError)"

text \<open>
  The matrix branch: the maximum of every column (\<open>np.max(z, axis=0)\<close>, which raises on
  a matrix without rows) is subtracted from the column, and every exponential is divided
  by the sum of its column.
\<close>

definition softmax_matrix :: "matrix \<Rightarrow> error + matrix" where
  "softmax_matrix z =
     (case sequence (map (\<lambda>j. np_max (column z j)) [0..<ncols z]) of
        Inl err \<Rightarrow> Inl err
      | Inr max_matrix \<Rightarrow>
          if z = [] then Inl ValueError
          else
            let stable_z = map (\<lambda>r. map (\<lambda>j. r ! j - max_matrix ! j) [0..<ncols z]) z;
                e = map (map exp) stable_z;
                s = map (\<lambda>j. sum_list (column e j)) [0..<ncols z];
                a = map (\<lambda>r. map (\<lambda>j. r ! j / s ! j) [0..<ncols z]) e
            in if length a = length z \<and> ncols a = ncols z then Inr a else Inl AssertionError)"

text \<open>\<open>softmax\<close> chooses the branch by \<open>len(z.shape)\<close>.\<close>

definition softmax :: "ndarray \<Rightarrow> error + ndarray" where
  "softmax z =
     (case z of
        Mat M \<Rightarrow> map_sum id Mat (softmax_matrix M)
      | Vec v \<Rightarrow> map_sum id Vec (softmax_vector v))"

section \<open>The GAT layer (gat.ipynb)\<close>

text \<open>Equation (1): \<open>z1 = X.dot(W.T)\<close>, with \<open>W\<close> of shape \<open>(emb, n)\<close>.\<close>

definition z1 :: "matrix \<Rightarrow> matrix \<Rightarrow> error + matrix" where
  "z1 X W = dot X (T W)"

text \<open>
  \<open>edge_coords = np.where(A == 1)\<close>: the coordinates of the entries equal to one, row by
  row. \<open>edge_coords[0]\<close> is the list of first components (the sources),
  \<open>edge_coords[1]\<close> the list of second components (the destinations).
\<close>

definition edge_coords :: "adjacency \<Rightarrow> (nat \<times> nat) list" where
  "edge_coords A =
     concat (map (\<lambda>i. map (Pair i) (filter (\<lambda>j. A ! i ! j = 1) [0..<ncols A])) [0..<length A])"

text \<open>
  Equation (2): the hidden features of source and destination of every edge side by
  side, multiplied by the attention coefficients \<open>att\<close> (shape \<open>(1, 2 * emb)\<close>), and
  the leaky ReLU of that. The asserts of the cell are tests of the notebook's own data
  and are not part of the layer; the graphs evaluated below have at least five edges, as
  the test \<open>z2[4,:]\<close> needs.
\<close>

definition z2 :: "matrix \<Rightarrow> (nat \<times> nat) list \<Rightarrow> error + matrix" where
  "z2 z ec =
     and_then (take_rows z (map fst ec)) (\<lambda>h_src_nodes.
     and_then (take_rows z (map snd ec)) (\<lambda>h_dst_nodes.
     Inr (map2 (@) h_src_nodes h_dst_nodes)))"

definition e :: "matrix \<Rightarrow> matrix \<Rightarrow> (nat \<times> nat) list \<Rightarrow> error + matrix" where
  "e z att ec =
     and_then (z2 z ec) (\<lambda>z2v.
     and_then (dot z2v (T att)) (\<lambda>z2_att.
     Inr (map (map leaky_relu) z2_att)))"

text \<open>
  Equation (3). \<open>e_matr\<close> is the matrix of edge scores, zero where there is no edge.
  \<open>alpha_node em i\<close> is \<open>softmax(e_matr[:,i][e_matr[:,i] != 0])\<close>; reading a column that
  the matrix does not have raises \<open>IndexError\<close>. The notebook writes this expression out
  five times, for the columns 0 to 4 (\<open>alpha0\<close> to \<open>alpha4\<close>), and concatenates these five
  vectors, whatever the number of nodes.
\<close>

definition e_matr :: "adjacency \<Rightarrow> (nat \<times> nat) list \<Rightarrow> matrix \<Rightarrow> error + matrix" where
  "e_matr A ec ev = set_at (zeros (length A) (ncols A)) ec (concat ev)"

definition alpha_node :: "matrix \<Rightarrow> nat \<Rightarrow> error + vec" where
  "alpha_node em i =
     (if i < ncols em then softmax_vector (filter (\<lambda>x. x \<noteq> 0) (column em i))
      else Inl IndexError)"

definition alpha :: "matrix \<Rightarrow> error + vec" where
  "alpha em =
     and_then (sequence [alpha_node em 0, alpha_node em 1, alpha_node em 2,
                         alpha_node em 3, alpha_node em 4])
       (\<lambda>as. Inr (concat as))"

definition A_scaled :: "adjacency \<Rightarrow> (nat \<times> nat) list \<Rightarrow> vec \<Rightarrow> error + matrix" where
  "A_scaled A ec al = set_at (zeros (length A) (ncols A)) ec al"

text \<open>The cells of equations (2) and (3), one after the other, from \<open>z1\<close> to \<open>A_scaled\<close>.\<close>

definition attention :: "matrix \<Rightarrow> matrix \<Rightarrow> adjacency \<Rightarrow> error + matrix" where
  "attention z att A =
     and_then (e z att (edge_coords A)) (\<lambda>ev.
     and_then (e_matr A (edge_coords A) ev) (\<lambda>em.
     and_then (alpha em) (\<lambda>al.
     A_scaled A (edge_coords A) al)))"

text \<open>Equation (4): \<open>ND_GAT = A_scaled.dot(z1)\<close>. The whole layer.\<close>

definition ND_GAT :: "matrix \<Rightarrow> matrix \<Rightarrow> matrix \<Rightarrow> adjacency \<Rightarrow> error + matrix" where
  "ND_GAT X W att A =
     and_then (z1 X W) (\<lambda>z.
     and_then (attention z att A) (\<lambda>As.
     dot As z))"

text \<open>
  The entry of \<open>e\<close> for one edge \<open>c\<close> (source first, destination second): the leaky ReLU
  of the product of the attention coefficients with the two hidden feature rows.
\<close>

definition edge_score :: "matrix \<Rightarrow> matrix \<Rightarrow> nat \<times> nat \<Rightarrow> real" where
  "edge_score z att c =
     leaky_relu (\<Sum>k\<leftarrow>[0..<ncols att]. (z ! fst c @ z ! snd c) ! k * att ! 0 ! k)"

text \<open>The sources of the edges into node \<open>i\<close>, in ascending order.\<close>

definition incoming :: "adjacency \<Rightarrow> nat \<Rightarrow> nat list" where
  "incoming A i = filter (\<lambda>j. A ! j ! i = 1) [0..<length A]"

subsection \<open>Several heads\<close>

text \<open>
  \<open>np.concatenate(layers, axis=1)\<close>: the rows of the layers side by side; the layers
  must have the same number of rows.
\<close>

definition concatenate_axis1 :: "matrix list \<Rightarrow> error + matrix" where
  "concatenate_axis1 layers =
     (case layers of
        [] \<Rightarrow> Inl ValueError
      | L # Ls \<Rightarrow>
          if list_all (\<lambda>M. length M = length L) Ls
          then Inr (map (\<lambda>i. concat (map (\<lambda>M. M ! i) layers)) [0..<length L])
          else Inl ValueError)"

text \<open>
  \<open>average = np.sum((layer1, layer2)) / 30\<close>: the sum of all entries of all layers,
  divided by the constant 30 (``the number of parameters: num_layers*emb*n'').
\<close>

definition average :: "matrix list \<Rightarrow> real" where
  "average layers = (\<Sum>L\<leftarrow>layers. \<Sum>r\<leftarrow>L. sum_list r) / 30"

text \<open>
  The average as the notebook's formula has it, to compare with: the mean of the heads'
  outputs, entry by entry.
\<close>

definition spec_average :: "matrix list \<Rightarrow> matrix" where
  "spec_average layers =
     map (\<lambda>i. map (\<lambda>j. (\<Sum>L\<leftarrow>layers. L ! i ! j) / real (length layers))
                  [0..<ncols (hd layers)])
         [0..<length (hd layers)]"

text \<open>Two heads for five nodes and an embedding of dimension three.\<close>

definition head1 :: matrix where
  "head1 = [[30, 0, 0], [0, 0, 0], [0, 0, 0], [0, 0, 0], [0, 0, 0]]"

definition head2 :: matrix where
  "head2 = [[0, 0, 0], [0, 0, 0], [0, 0, 0], [0, 0, 0], [0, 0, 0]]"

subsection \<open>Graphs of five nodes\<close>

text \<open>
  The notebook has five nodes with one-hot features. With an embedding of dimension one,
  the weight matrix has one row and the attention coefficients are one row of two.
\<close>

definition eye5 :: matrix where
  "eye5 = [[1, 0, 0, 0, 0], [0, 1, 0, 0, 0], [0, 0, 1, 0, 0], [0, 0, 0, 1, 0], [0, 0, 0, 0, 1]]"

definition W_ones :: matrix where "W_ones = [[1, 1, 1, 1, 1]]"

definition att_ones :: matrix where "att_ones = [[1, 1]]"

definition A_directed :: adjacency where
  "A_directed = [[1, 1, 0, 0, 0], [0, 1, 0, 0, 0], [0, 0, 1, 0, 0], [0, 0, 0, 1, 0], [0, 0, 0, 0, 1]]"

definition W_neg :: matrix where "W_neg = [[-1, 1, 1, 1, 1]]"

definition A_und5 :: adjacency where
  "A_und5 = [[1, 1, 0, 0, 0], [1, 1, 0, 0, 0], [0, 0, 1, 0, 0], [0, 0, 0, 1, 0], [0, 0, 0, 0, 1]]"

definition A_isolated :: adjacency where
  "A_isolated = [[0, 0, 0, 0, 0], [0, 1, 1, 0, 0], [0, 1, 1, 0, 0], [0, 0, 0, 1, 0], [0, 0, 0, 0, 1]]"

text \<open>Three nodes, every one a neighbour of every one.\<close>

definition eye3 :: matrix where
  "eye3 = [[1, 0, 0], [0, 1, 0], [0, 0, 1]]"

definition W_ones3 :: matrix where "W_ones3 = [[1, 1, 1]]"

definition A_full3 :: adjacency where
  "A_full3 = [[1, 1, 1], [1, 1, 1], [1, 1, 1]]"

section \<open>Values with infinities\<close>

text \<open>
  The reciprocal of a zero degree is not an error in NumPy: it is the floating-point
  infinity, and the product of infinity and zero is not-a-number. The degree-normalised
  aggregation is therefore modelled over the reals extended by these values.
\<close>

datatype fval = Fin real | PInf | NInf | NaN

fun fadd :: "fval \<Rightarrow> fval \<Rightarrow> fval" where
  "fadd (Fin a) (Fin b) = Fin (a + b)"
| "fadd NaN _ = NaN"
| "fadd _ NaN = NaN"
| "fadd PInf NInf = NaN"
| "fadd NInf PInf = NaN"
| "fadd PInf _ = PInf"
| "fadd _ PInf = PInf"
| "fadd NInf _ = NInf"
| "fadd _ NInf = NInf"

definition finf :: "bool \<Rightarrow> fval" where
  "finf positive = (if positive then PInf else NInf)"

fun fmul :: "fval \<Rightarrow> fval \<Rightarrow> fval" where
  "fmul (Fin a) (Fin b) = Fin (a * b)"
| "fmul NaN _ = NaN"
| "fmul _ NaN = NaN"
| "fmul PInf (Fin b) = (if b = 0 then NaN else finf (0 < b))"
| "fmul NInf (Fin b) = (if b = 0 then NaN else finf (b < 0))"
| "fmul (Fin a) PInf = (if a = 0 then NaN else finf (0 < a))"
| "fmul (Fin a) NInf = (if a = 0 then NaN else finf (a < 0))"
| "fmul PInf PInf = PInf"
| "fmul NInf NInf = PInf"
| "fmul PInf NInf = NInf"
| "fmul NInf PInf = NInf"

instantiation fval :: "{comm_monoid_add,times}"
begin

definition zero_fval :: fval where "zero_fval = Fin 0"
definition plus_fval :: "fval \<Rightarrow> fval \<Rightarrow> fval" where "plus_fval = fadd"
definition times_fval :: "fval \<Rightarrow> fval \<Rightarrow> fval" where "times_fval = fmul"

instance
proof
  fix a b c :: fval
  show "a + b + c = a + (b + c)"
    unfolding plus_fval_def by (cases a; cases b; cases c) simp_all
  show "a + b = b + a"
    unfolding plus_fval_def by (cases a; cases b) simp_all
  show "0 + a = a"
    unfolding plus_fval_def zero_fval_def by (cases a) simp_all
qed

end

section \<open>GNN, GCN and R-GCN layers (rgcn.ipynb)\<close>

text \<open>The linear transformation \<open>L_0 = X.dot(W)\<close>, with \<open>W\<close> of shape \<open>(n, emb)\<close>.\<close>

definition L_0 :: "matrix \<Rightarrow> matrix \<Rightarrow> error + matrix" where
  "L_0 X W = dot X W"

definition as_float :: "int list list \<Rightarrow> matrix" where
  "as_float A = map (map real_of_int) A"

text \<open>The neighbourhood diffusion \<open>ND_GNN = A_und.dot(L_0)\<close>.\<close>

definition ND_GNN :: "adjacency \<Rightarrow> matrix \<Rightarrow> error + matrix" where
  "ND_GNN A_und L0 = dot (as_float A_und) L0"

text \<open>The degree vector \<open>D = A_und.sum(axis=1)\<close>.\<close>

definition D :: "adjacency \<Rightarrow> int list" where
  "D A_und = map sum_list A_und"

text \<open>\<open>np.reciprocal\<close> of a degree converted to a float.\<close>

definition reciprocal :: "int \<Rightarrow> fval" where
  "reciprocal d = (if d = 0 then PInf else Fin (1 / real_of_int d))"

text \<open>\<open>np.diag(v)\<close>\<close>

definition diag :: "('a::zero) list \<Rightarrow> 'a list list" where
  "diag v = map (\<lambda>i. map (\<lambda>j. if i = j then v ! i else 0) [0..<length v]) [0..<length v]"

definition D_rec :: "adjacency \<Rightarrow> fval list list" where
  "D_rec A_und = diag (map reciprocal (D A_und))"

text \<open>The isotropic average \<open>ND_GCN = D_rec.dot(ND_GNN)\<close>.\<close>

definition ND_GCN :: "adjacency \<Rightarrow> matrix \<Rightarrow> error + fval list list" where
  "ND_GCN A_und L0 =
     and_then (ND_GNN A_und L0) (\<lambda>nd_gnn. dot (D_rec A_und) (map (map Fin) nd_gnn))"

text \<open>
  \<open>np.matmul(X, W_rels)\<close> multiplies the matrix \<open>X\<close> with every matrix of the tensor
  \<open>W_rels\<close> of shape \<open>(num_rels, n, emb)\<close>.
\<close>

definition L_0_rels :: "matrix \<Rightarrow> tensor \<Rightarrow> error + tensor" where
  "L_0_rels X W_rels = sequence (map (dot X) W_rels)"

text \<open>
  \<open>np.matmul\<close> of two tensors multiplies matrix by matrix; a tensor of one matrix is
  broadcast, any other difference in the number of matrices raises \<open>ValueError\<close>.
\<close>

definition matmul :: "tensor \<Rightarrow> tensor \<Rightarrow> error + tensor" where
  "matmul a b =
     (if length a = length b then sequence (map2 dot a b)
      else if length a = 1 then sequence (map (dot (hd a)) b)
      else if length b = 1 then sequence (map (\<lambda>m. dot m (hd b)) a)
      else Inl ValueError)"

text \<open>\<open>np.sum(t, axis=0)\<close>: the entrywise sum of the matrices of a tensor.\<close>

definition mat_add :: "matrix \<Rightarrow> matrix \<Rightarrow> matrix" where
  "mat_add a b = map2 (map2 (+)) a b"

definition sum_axis0 :: "tensor \<Rightarrow> matrix" where
  "sum_axis0 t = (case t of [] \<Rightarrow> [] | m # ms \<Rightarrow> foldl mat_add m ms)"

text \<open>
  The R-GCN layer: \<open>ND_GCN = np.matmul(A_rels, L_0_rels)\<close> for each typed edge, then
  \<open>RGCN = np.sum(ND_GCN, axis=0)\<close>.
\<close>

definition RGCN :: "matrix \<Rightarrow> tensor \<Rightarrow> adjacency list \<Rightarrow> error + matrix" where
  "RGCN X W_rels A_rels =
     and_then (L_0_rels X W_rels) (\<lambda>l_0_rels.
     and_then (matmul (map as_float A_rels) l_0_rels) (\<lambda>nd_gcn.
     Inr (sum_axis0 nd_gcn)))"

text \<open>The plain layer of the recall section: projection, then neighbourhood diffusion.\<close>

definition GNN :: "matrix \<Rightarrow> matrix \<Rightarrow> adjacency \<Rightarrow> error + matrix" where
  "GNN X W A_und = and_then (L_0 X W) (\<lambda>l_0. ND_GNN A_und l_0)"

section \<open>Errors, shapes and columns\<close>

lemma and_then_Inr [simp]: "and_then (Inr x) f = f x"
  by (simp add: and_then_def)

lemma and_then_Inl [simp]: "and_then (Inl err) f = Inl err"
  by (simp add: and_then_def)

lemma sequence_Inr: "sequence (map (\<lambda>x. Inr (f x)) xs) = Inr (map f xs)"
  by (induction xs) simp_all

lemma sequence_map_cong_Inr:
  "(\<And>x. x \<in> set xs \<Longrightarrow> g x = Inr (f x)) \<Longrightarrow> sequence (map g xs) = Inr (map f xs)"
  by (induction xs) simp_all

lemma is_mat_ncols: "is_mat n k M \<Longrightarrow> 0 < n \<Longrightarrow> ncols M = k"
  by (cases M) (simp_all add: is_mat_def ncols_def)

lemma is_mat_nth: "is_mat n k M \<Longrightarrow> i < n \<Longrightarrow> length (M ! i) = k"
  by (simp add: is_mat_def list_all_length)

lemma is_mat_length: "is_mat n k M \<Longrightarrow> length M = n"
  by (simp add: is_mat_def)

lemma is_matI: "length M = n \<Longrightarrow> (\<And>i. i < n \<Longrightarrow> length (M ! i) = k) \<Longrightarrow> is_mat n k M"
  by (simp add: is_mat_def list_all_length)

lemma length_column [simp]: "length (column M j) = length M"
  by (simp add: column_def)

lemma nth_column [simp]: "i < length M \<Longrightarrow> column M j ! i = M ! i ! j"
  by (simp add: column_def)

section \<open>Properties of softmax\<close>

lemma foldl_max_shift:
  "foldl max (x + c) (map (\<lambda>y. y + c) xs) = foldl max (x::real) xs + c"
proof (induction xs arbitrary: x)
  case Nil
  show ?case by simp
next
  case (Cons y ys)
  have "max (x + c) (y + c) = max x y + c" by (simp add: max_def)
  with Cons.IH [of "max x y"] show ?case by simp
qed

lemma foldl_max_Max: "foldl max (x::real) xs = Max (set (x # xs))"
proof -
  have "(\<lambda>a s. max s a) = (max :: real \<Rightarrow> real \<Rightarrow> real)"
    by (intro ext) (rule max.commute)
  then have "foldl max x xs = fold max xs x"
    by (simp add: foldl_conv_fold)
  also have "\<dots> = Max (set (x # xs))"
    by (rule Max.set_eq_fold [symmetric])
  finally show ?thesis .
qed

lemma np_max_Max: "z \<noteq> [] \<Longrightarrow> np_max z = Inr (Max (set z))"
  by (cases z) (simp_all add: foldl_max_Max del: set_simps)

lemma sum_list_exp_pos:
  "z \<noteq> [] \<Longrightarrow> 0 < (\<Sum>y\<leftarrow>z. exp (y - (m::real)))"
proof (induction z)
  case Nil
  then show ?case by simp
next
  case (Cons a z)
  have "0 \<le> (\<Sum>y\<leftarrow>z. exp (y - m))"
    by (rule sum_list_nonneg) auto
  moreover have "0 < exp (a - m)" by simp
  ultimately have "0 < exp (a - m) + (\<Sum>y\<leftarrow>z. exp (y - m))"
    by (rule add_pos_nonneg [rotated])
  then show ?case by simp
qed

lemma sum_list_divide_const:
  "(\<Sum>x\<leftarrow>z. f x / (s::real)) = (\<Sum>x\<leftarrow>z. f x) / s"
  by (induction z) (simp_all add: add_divide_distrib)

lemma softmax_vector_eq:
  "z \<noteq> [] \<Longrightarrow> softmax_vector z =
     Inr (map (\<lambda>x. exp (x - Max (set z)) / (\<Sum>y\<leftarrow>z. exp (y - Max (set z)))) z)"
  by (simp add: softmax_vector_def np_max_Max)

lemma softmax_vector_sum:
  assumes "z \<noteq> []"
  shows "(\<Sum>x\<leftarrow>z. exp (x - m) / (\<Sum>y\<leftarrow>z. exp (y - (m::real)))) = 1"
proof -
  have "0 < (\<Sum>y\<leftarrow>z. exp (y - m))" by (rule sum_list_exp_pos [OF assms])
  then show ?thesis by (simp add: sum_list_divide_const)
qed

lemma softmax_vector_shift:
  "softmax_vector (map (\<lambda>x. x + c) z) = softmax_vector z"
proof (cases z)
  case Nil
  then show ?thesis by (simp add: softmax_vector_def)
next
  case (Cons x xs)
  have "foldl max (x + c) (map (\<lambda>y. y + c) xs) = foldl max x xs + c"
    by (rule foldl_max_shift)
  then show ?thesis
    by (simp add: softmax_vector_def Cons comp_def)
qed

lemma ncols_map_upt: "M \<noteq> [] \<Longrightarrow> ncols (map (\<lambda>r. map (g r) [0..<k]) M) = k"
  by (cases M) (simp_all add: ncols_def)

lemma softmax_matrix_eq:
  assumes M: "is_mat n k M" and n: "0 < n"
  shows "softmax_matrix M =
     Inr (map (\<lambda>r. map (\<lambda>j. exp (r ! j - Max (set (column M j)))
                               / (\<Sum>x\<leftarrow>column M j. exp (x - Max (set (column M j)))))
                        [0..<k]) M)"
proof -
  have nc: "ncols M = k" by (rule is_mat_ncols [OF M n])
  from M n have ne: "M \<noteq> []" by (auto simp: is_mat_def)
  define mx where "mx = map (\<lambda>j. Max (set (column M j))) [0..<k]"
  have seq: "sequence (map (\<lambda>j. np_max (column M j)) [0..<k]) = Inr mx"
    unfolding mx_def
  proof (rule sequence_map_cong_Inr)
    fix j
    from ne have "column M j \<noteq> []" by (simp add: column_def)
    then show "np_max (column M j) = Inr (Max (set (column M j)))" by (rule np_max_Max)
  qed
  define ex where "ex = map (map exp) (map (\<lambda>r. map (\<lambda>j. r ! j - mx ! j) [0..<k]) M)"
  have ex: "ex = map (\<lambda>r. map (\<lambda>j. exp (r ! j - mx ! j)) [0..<k]) M"
    by (simp add: ex_def comp_def)
  have col: "column (map (\<lambda>r. map (\<lambda>j. exp (r ! j - mx ! j)) [0..<k]) M) j
      = map (\<lambda>x. exp (x - mx ! j)) (column M j)" if "j < k" for j
    using that by (simp add: column_def comp_def)
  have mxj: "mx ! j = Max (set (column M j))" if "j < k" for j
    using that by (simp add: mx_def)
  have "softmax_matrix M =
          Inr (map (\<lambda>r. map (\<lambda>j. r ! j / map (\<lambda>j. sum_list (column ex j)) [0..<k] ! j) [0..<k]) ex)"
  proof -
    define a where "a = map (\<lambda>r. map (\<lambda>j. r ! j / map (\<lambda>j. sum_list (column ex j)) [0..<k] ! j) [0..<k]) ex"
    from ne have "ex \<noteq> []" by (simp add: ex)
    then have "ncols a = k"
      unfolding a_def by (rule ncols_map_upt)
    moreover have "length a = length M" by (simp add: a_def ex)
    moreover have "softmax_matrix M =
        (if length a = length M \<and> ncols a = k then Inr a else Inl AssertionError)"
      unfolding softmax_matrix_def Let_def nc seq a_def ex_def
      using ne by (simp only: sum.case if_False)
    ultimately show ?thesis by (simp add: a_def)
  qed
  also have "map (\<lambda>r. map (\<lambda>j. r ! j / map (\<lambda>j. sum_list (column ex j)) [0..<k] ! j) [0..<k]) ex
      = map (\<lambda>r. map (\<lambda>j. exp (r ! j - Max (set (column M j)))
                               / (\<Sum>x\<leftarrow>column M j. exp (x - Max (set (column M j)))))
                        [0..<k]) M"
    by (simp add: ex comp_def col mxj)
  finally show ?thesis .
qed

lemma softmax_vector_ok:
  assumes "z \<noteq> []"
  shows "\<exists>a. softmax (Vec z) = Inr (Vec a) \<and> length a = length z
        \<and> (\<forall>i<length z. a ! i = exp (z ! i - Max (set z)) / (\<Sum>y\<leftarrow>z. exp (y - Max (set z))))
        \<and> sum_list a = 1"
proof -
  define a where "a = map (\<lambda>x. exp (x - Max (set z)) / (\<Sum>y\<leftarrow>z. exp (y - Max (set z)))) z"
  have "softmax (Vec z) = Inr (Vec a)"
    by (simp add: softmax_def softmax_vector_eq [OF assms] a_def)
  moreover have "length a = length z" by (simp add: a_def)
  moreover have "\<forall>i<length z. a ! i = exp (z ! i - Max (set z)) / (\<Sum>y\<leftarrow>z. exp (y - Max (set z)))"
    by (simp add: a_def)
  moreover have "sum_list a = 1"
    unfolding a_def by (rule softmax_vector_sum [OF assms])
  ultimately show ?thesis by blast
qed

lemma softmax_matrix_ok:
  assumes M: "is_mat n k M" and n: "0 < n"
  shows "\<exists>a. softmax (Mat M) = Inr (Mat a) \<and> is_mat n k a
        \<and> (\<forall>i<n. \<forall>j<k. a ! i ! j = exp (M ! i ! j - Max (set (column M j)))
                                   / (\<Sum>y\<leftarrow>column M j. exp (y - Max (set (column M j)))))
        \<and> (\<forall>j<k. sum_list (column a j) = 1)"
proof -
  define w where "w j x = exp (x - Max (set (column M j)))
                           / (\<Sum>y\<leftarrow>column M j. exp (y - Max (set (column M j))))" for j x
  define a where "a = map (\<lambda>r. map (\<lambda>j. w j (r ! j)) [0..<k]) M"
  have len: "length M = n" by (rule is_mat_length [OF M])
  have "softmax_matrix M = Inr a"
    unfolding a_def w_def by (rule softmax_matrix_eq [OF M n])
  then have "softmax (Mat M) = Inr (Mat a)" by (simp add: softmax_def)
  moreover have "is_mat n k a"
    by (rule is_matI) (simp_all add: a_def len)
  moreover have "\<forall>i<n. \<forall>j<k. a ! i ! j = w j (M ! i ! j)"
    by (simp add: a_def len)
  moreover have "\<forall>j<k. sum_list (column a j) = 1"
  proof (intro allI impI)
    fix j assume j: "j < k"
    from n len have ne: "column M j \<noteq> []" by (auto simp: column_def)
    from j have "column a j = map (w j) (column M j)"
      by (simp add: a_def column_def comp_def)
    then show "sum_list (column a j) = 1"
      unfolding w_def using softmax_vector_sum [OF ne] by simp
  qed
  ultimately show ?thesis unfolding w_def by blast
qed

lemma softmax_single: "softmax (Vec [x]) = Inr (Vec [1])"
  by (simp add: softmax_def softmax_vector_def)

text \<open>
  Claim C8. On a vector with at least one entry, and column by column on a matrix with at
  least one row, \<open>softmax\<close> returns an array of the shape of its input; every entry is
  the exponential of the input entry minus the maximum, divided by the sum of these
  exponentials, so that the entries of the vector (of each column) sum to one. On a
  vector of a single entry the result is one, whatever the entry.
\<close>

theorem softmax_normalised:
  "(z \<noteq> [] \<longrightarrow>
      (\<exists>a. softmax (Vec z) = Inr (Vec a) \<and> length a = length z
        \<and> (\<forall>i<length z. a ! i = exp (z ! i - Max (set z)) / (\<Sum>y\<leftarrow>z. exp (y - Max (set z))))
        \<and> sum_list a = 1))
   \<and> (is_mat n k M \<and> 0 < n \<longrightarrow>
      (\<exists>a. softmax (Mat M) = Inr (Mat a) \<and> is_mat n k a
        \<and> (\<forall>i<n. \<forall>j<k. a ! i ! j = exp (M ! i ! j - Max (set (column M j)))
                                   / (\<Sum>y\<leftarrow>column M j. exp (y - Max (set (column M j)))))
        \<and> (\<forall>j<k. sum_list (column a j) = 1)))
   \<and> softmax (Vec [x]) = Inr (Vec [1])"
  using softmax_vector_ok [of z] softmax_matrix_ok [of n k M] softmax_single [of x]
  by blast

theorem softmax_normalised_witness:
  "(\<exists>a. softmax (Vec [1, 2]) = Inr (Vec a) \<and> length a = 2 \<and> sum_list a = 1)
   \<and> (\<exists>a. softmax (Mat [[1, 2], [3, 4]]) = Inr (Mat a) \<and> is_mat 2 2 a
          \<and> sum_list (column a 0) = 1 \<and> sum_list (column a 1) = 1)
   \<and> softmax (Vec [5]) = Inr (Vec [1])"
proof -
  have v: "[1, 2 :: real] \<noteq> []" by simp
  have m: "is_mat 2 2 [[1, 2], [3, 4 :: real]] \<and> 0 < (2::nat)" by (simp add: is_mat_def)
  from softmax_normalised [of "[1, 2]" 2 2 "[[1, 2], [3, 4]]" 5] v m
  show ?thesis by fastforce
qed

text \<open>
  Claim C9. \<open>softmax\<close> is invariant under a shift: adding a constant \<open>c\<close> to every
  entry of a vector with at least one entry does not change the result.
\<close>

theorem softmax_shift_invariant:
  "z \<noteq> [] \<Longrightarrow>
     (\<exists>a. softmax (Vec z) = Inr (Vec a) \<and> softmax (Vec (map (\<lambda>x. x + c) z)) = Inr (Vec a))"
  using softmax_vector_eq [of z] by (simp add: softmax_def softmax_vector_shift)

theorem softmax_shift_invariant_witness:
  "\<exists>a. softmax (Vec [1, 2, 3]) = Inr (Vec a) \<and> softmax (Vec [1001, 1002, 1003]) = Inr (Vec a)"
  using softmax_shift_invariant [of "[1, 2, 3]" 1000] by simp

section \<open>Projection and the R-GCN layer\<close>

lemma sum_list_upt: "(\<Sum>k\<leftarrow>[0..<n]. g k) = (\<Sum>k<n. g k)"
  by (simp add: interv_sum_list_conv_sum_set_nat atLeast0LessThan)

lemma dot_eq:
  assumes "is_mat n f a" and "length b = f"
  shows "dot a b = Inr (map (\<lambda>r. map (\<lambda>j. \<Sum>k<f. r ! k * b ! k ! j) [0..<ncols b]) a)"
  using assms by (simp add: dot_def is_mat_def sum_list_upt)

lemma dot_is_mat:
  assumes "dot a b = Inr c"
  shows "is_mat (length a) (ncols b) c"
  using assms by (auto simp: dot_def is_mat_def list_all_iff split: if_splits)

lemma T_is_mat: "is_mat m f W \<Longrightarrow> 0 < m \<Longrightarrow> is_mat f m (T W)"
  using is_mat_ncols [of m f W] by (simp add: T_def is_mat_def list_all_iff)

lemma T_nth: "is_mat m f W \<Longrightarrow> 0 < m \<Longrightarrow> k < f \<Longrightarrow> j < m \<Longrightarrow> T W ! k ! j = W ! j ! k"
  using is_mat_ncols [of m f W] by (simp add: T_def is_mat_def)

lemma z1_ok:
  assumes X: "is_mat n f X" and W: "is_mat m f W" and m: "0 < m" and f: "0 < f"
  shows "\<exists>Z. z1 X W = Inr Z \<and> is_mat n m Z
          \<and> (\<forall>i<n. \<forall>j<m. Z ! i ! j = (\<Sum>k<f. X ! i ! k * W ! j ! k))"
proof -
  have TW: "is_mat f m (T W)" by (rule T_is_mat [OF W m])
  then have len: "length (T W) = f" by (rule is_mat_length)
  have nc: "ncols (T W) = m" by (rule is_mat_ncols [OF TW f])
  define Z where "Z = map (\<lambda>r. map (\<lambda>j. \<Sum>k<f. r ! k * T W ! k ! j) [0..<m]) X"
  have "z1 X W = Inr Z"
    unfolding z1_def Z_def using dot_eq [OF X len] by (simp add: nc)
  moreover have "is_mat n m Z"
    using X by (intro is_matI) (simp_all add: Z_def is_mat_def)
  moreover have "\<forall>i<n. \<forall>j<m. Z ! i ! j = (\<Sum>k<f. X ! i ! k * W ! j ! k)"
    using X by (simp add: Z_def is_mat_def T_nth [OF W m])
  ultimately show ?thesis by blast
qed

lemma L_0_ok:
  assumes X: "is_mat n f X" and W: "is_mat f m W" and f: "0 < f"
  shows "\<exists>Z. L_0 X W = Inr Z \<and> is_mat n m Z
          \<and> (\<forall>i<n. \<forall>j<m. Z ! i ! j = (\<Sum>k<f. X ! i ! k * W ! k ! j))"
proof -
  have len: "length W = f" by (rule is_mat_length [OF W])
  have nc: "ncols W = m" by (rule is_mat_ncols [OF W f])
  define Z where "Z = map (\<lambda>r. map (\<lambda>j. \<Sum>k<f. r ! k * W ! k ! j) [0..<m]) X"
  have "L_0 X W = Inr Z"
    unfolding L_0_def Z_def using dot_eq [OF X len] by (simp add: nc)
  moreover have "is_mat n m Z"
    using X by (intro is_matI) (simp_all add: Z_def is_mat_def)
  moreover have "\<forall>i<n. \<forall>j<m. Z ! i ! j = (\<Sum>k<f. X ! i ! k * W ! k ! j)"
    using X by (simp add: Z_def is_mat_def)
  ultimately show ?thesis by blast
qed

lemma sequence_Inr_nth:
  "(\<And>x. x \<in> set xs \<Longrightarrow> \<exists>y. g x = Inr y) \<Longrightarrow>
     \<exists>ys. sequence (map g xs) = Inr ys \<and> length ys = length xs
          \<and> (\<forall>r<length xs. g (xs ! r) = Inr (ys ! r))"
proof (induction xs)
  case Nil
  show ?case by simp
next
  case (Cons x xs)
  from Cons.prems obtain y where y: "g x = Inr y" by auto
  from Cons obtain ys where ys: "sequence (map g xs) = Inr ys" "length ys = length xs"
    "\<forall>r<length xs. g (xs ! r) = Inr (ys ! r)" by auto
  have "\<forall>r<length (x # xs). g ((x # xs) ! r) = Inr ((y # ys) ! r)"
    using y ys(3) by (auto simp: nth_Cons split: nat.splits)
  with y ys(1,2) show ?case by auto
qed

lemma L_0_rels_ok:
  assumes X: "is_mat n f X" and Ws: "list_all (is_mat f m) W_rels" and f: "0 < f"
  shows "\<exists>Ls. L_0_rels X W_rels = Inr Ls \<and> length Ls = length W_rels
          \<and> (\<forall>r<length W_rels. is_mat n m (Ls ! r) \<and> L_0 X (W_rels ! r) = Inr (Ls ! r))"
proof -
  have "\<exists>y. dot X W = Inr y" if "W \<in> set W_rels" for W
  proof -
    from that Ws have "is_mat f m W" by (simp add: list_all_iff)
    from L_0_ok [OF X this f] show ?thesis by (auto simp: L_0_def)
  qed
  from sequence_Inr_nth [of W_rels "dot X", OF this]
  obtain Ls where Ls: "sequence (map (dot X) W_rels) = Inr Ls" "length Ls = length W_rels"
    "\<forall>r<length W_rels. dot X (W_rels ! r) = Inr (Ls ! r)" by blast
  have "is_mat n m (Ls ! r)" if r: "r < length W_rels" for r
  proof -
    from r Ws have "is_mat f m (W_rels ! r)" by (simp add: list_all_length)
    from L_0_ok [OF X this f] Ls(3) r show ?thesis by (auto simp: L_0_def)
  qed
  with Ls show ?thesis by (auto simp: L_0_rels_def L_0_def)
qed

text \<open>
  Claim C6, as the code has it. The GAT notebook multiplies the features (\<open>n\<close> rows,
  \<open>f\<close> columns) with the transpose of a weight matrix of \<open>m\<close> rows and \<open>f\<close> columns;
  the R-GCN notebook multiplies them with a weight matrix of \<open>f\<close> rows and \<open>m\<close>
  columns, not transposed. Both give \<open>n\<close> rows and \<open>m\<close> columns. For a tensor of such
  weight matrices, one for each relation, the projection is a tensor with one matrix of
  \<open>n\<close> rows and \<open>m\<close> columns for each relation: the projection of the same features by
  that relation's weight matrix.
\<close>

theorem projection_shapes:
  "is_mat n f X \<and> 0 < f \<longrightarrow>
     (is_mat m f W \<and> 0 < m \<longrightarrow>
        (\<exists>Z. z1 X W = Inr Z \<and> is_mat n m Z
            \<and> (\<forall>i<n. \<forall>j<m. Z ! i ! j = (\<Sum>k<f. X ! i ! k * W ! j ! k))))
   \<and> (is_mat f m W' \<longrightarrow>
        (\<exists>Z. L_0 X W' = Inr Z \<and> is_mat n m Z
            \<and> (\<forall>i<n. \<forall>j<m. Z ! i ! j = (\<Sum>k<f. X ! i ! k * W' ! k ! j))))
   \<and> (list_all (is_mat f m) W_rels \<longrightarrow>
        (\<exists>Ls. L_0_rels X W_rels = Inr Ls \<and> length Ls = length W_rels
            \<and> (\<forall>r<length W_rels. is_mat n m (Ls ! r) \<and> L_0 X (W_rels ! r) = Inr (Ls ! r))))"
  using z1_ok [of n f X m W] L_0_ok [of n f X m W'] L_0_rels_ok [of n f X m W_rels]
  by blast

theorem projection_shapes_witness:
  "(\<exists>Z. z1 [[1, 0]] [[1, 2]] = Inr Z \<and> is_mat 1 1 Z)
   \<and> (\<exists>Z. L_0 [[1, 0]] [[1], [2]] = Inr Z \<and> is_mat 1 1 Z)
   \<and> (\<exists>Ls. L_0_rels [[1, 0]] [[[1], [2]], [[3], [4]]] = Inr Ls \<and> length Ls = 2)"
proof -
  have X: "is_mat 1 2 [[1, 0 :: real]] \<and> 0 < (2::nat)" by (simp add: is_mat_def)
  have W: "is_mat 1 2 [[1, 2 :: real]] \<and> 0 < (1::nat)" by (simp add: is_mat_def)
  have W': "is_mat 2 1 [[1], [2 :: real]]" by (simp add: is_mat_def)
  have Ws: "list_all (is_mat 2 1) [[[1], [2]], [[3], [4 :: real]]]" by (simp add: is_mat_def)
  from projection_shapes [of 1 2 "[[1, 0]]" 1 "[[1, 2]]" "[[1], [2]]" "[[[1], [2]], [[3], [4]]]"]
    X W W' Ws
  show ?thesis by fastforce
qed

text \<open>
  With a weight matrix of \<open>f\<close> rows and \<open>m\<close> columns, as claim C6 has it, the product
  with the transpose is not defined when \<open>f\<close> and \<open>m\<close> differ: \<open>X.dot(W.T)\<close> raises.
\<close>

theorem projection_transposed_counterexample:
  "is_mat 1 2 [[1, 0 :: real]] \<and> is_mat 2 1 [[1], [2 :: real]]
   \<and> z1 [[1, 0]] [[1], [2]] = Inl ValueError"
  by (simp add: is_mat_def z1_def dot_def T_def ncols_def column_def)

text \<open>
  Claim C7. With a single relation the R-GCN layer gives what the plain layer gives on
  the same features, weight matrix and adjacency matrix: the adjacency matrix times the
  product of features and weights (and the same error, when the shapes do not fit).
\<close>

theorem rgcn_single_relation: "RGCN X [W] [A] = GNN X W A"
proof (cases "dot X W")
  case (Inl err)
  then show ?thesis by (simp add: RGCN_def GNN_def L_0_rels_def L_0_def)
next
  case (Inr l)
  show ?thesis
  proof (cases "dot (as_float A) l")
    case (Inl err)
    with Inr show ?thesis
      by (simp add: RGCN_def GNN_def L_0_rels_def L_0_def matmul_def ND_GNN_def)
  next
    case Inr2: (Inr nd)
    with Inr show ?thesis
      by (simp add: RGCN_def GNN_def L_0_rels_def L_0_def matmul_def ND_GNN_def sum_axis0_def)
  qed
qed

section \<open>Degree-normalised aggregation\<close>

lemma Fin_times [simp]: "Fin a * Fin b = Fin (a * b)"
  by (simp add: times_fval_def)

lemma Fin_plus [simp]: "Fin a + Fin b = Fin (a + b)"
  by (simp add: plus_fval_def)

lemma NaN_plus [simp]: "NaN + x = NaN" "x + NaN = NaN"
  by (cases x; simp add: plus_fval_def)+

lemma PInf_times_zero [simp]: "PInf * Fin 0 = NaN"
  by (simp add: times_fval_def)

lemma sum_list_Fin: "(\<Sum>k\<leftarrow>xs. Fin (g k)) = Fin (\<Sum>k\<leftarrow>xs. g k)"
  by (induction xs) (simp_all add: zero_fval_def)

lemma sum_list_NaN: "NaN \<in> set xs \<Longrightarrow> sum_list xs = NaN"
  by (induction xs) auto

lemma ND_GNN_ok:
  assumes A: "is_mat n n A" and L: "is_mat n m L" and n: "0 < n"
  shows "\<exists>G. ND_GNN A L = Inr G \<and> is_mat n m G
          \<and> (\<forall>i<n. \<forall>c<m. G ! i ! c = (\<Sum>j<n. real_of_int (A ! i ! j) * L ! j ! c))"
proof -
  have A': "is_mat n n (as_float A)"
    using A by (simp add: as_float_def is_mat_def list_all_iff)
  have len: "length L = n" by (rule is_mat_length [OF L])
  have nc: "ncols L = m" by (rule is_mat_ncols [OF L n])
  define G where "G = map (\<lambda>r. map (\<lambda>j. \<Sum>k<n. r ! k * L ! k ! j) [0..<m]) (as_float A)"
  have "ND_GNN A L = Inr G"
    unfolding ND_GNN_def G_def using dot_eq [OF A' len] by (simp add: nc)
  moreover have "is_mat n m G"
    using A' by (intro is_matI) (simp_all add: G_def is_mat_def)
  moreover have "\<forall>i<n. \<forall>c<m. G ! i ! c = (\<Sum>j<n. real_of_int (A ! i ! j) * L ! j ! c)"
    using A by (simp add: G_def as_float_def is_mat_def list_all_length)
  ultimately show ?thesis by blast
qed

lemma D_rec_is_mat: "length A = n \<Longrightarrow> is_mat n n (D_rec A)"
  by (simp add: D_rec_def diag_def D_def is_mat_def list_all_iff)

lemma D_rec_nth:
  "i < length A \<Longrightarrow> k < length A \<Longrightarrow>
     D_rec A ! i ! k = (if i = k then reciprocal (sum_list (A ! i)) else 0)"
  by (simp add: D_rec_def diag_def D_def)

lemma ND_GCN_eq:
  assumes A: "is_mat n n A" and L: "is_mat n m L" and n: "0 < n"
    and G: "ND_GNN A L = Inr G"
  shows "ND_GCN A L =
     Inr (map (\<lambda>r. map (\<lambda>c. \<Sum>k\<leftarrow>[0..<n]. r ! k * Fin (G ! k ! c)) [0..<m]) (D_rec A))"
proof -
  from ND_GNN_ok [OF A L n] G have Gm: "is_mat n m G" by auto
  have lenA: "length A = n" by (rule is_mat_length [OF A])
  have lenG: "length G = n" by (rule is_mat_length [OF Gm])
  have ncG: "ncols (map (map Fin) G) = m"
    using Gm n by (cases G) (simp_all add: ncols_def is_mat_def)
  have rows: "list_all (\<lambda>r. length r = n) (D_rec A)"
    using D_rec_is_mat [OF lenA] by (simp add: is_mat_def)
  have "dot (D_rec A) (map (map Fin) G) =
     Inr (map (\<lambda>r. map (\<lambda>c. \<Sum>k\<leftarrow>[0..<n]. r ! k * map (map Fin) G ! k ! c) [0..<m]) (D_rec A))"
    using rows by (simp add: dot_def lenG ncG)
  also have "map (\<lambda>r. map (\<lambda>c. \<Sum>k\<leftarrow>[0..<n]. r ! k * map (map Fin) G ! k ! c) [0..<m]) (D_rec A)
      = map (\<lambda>r. map (\<lambda>c. \<Sum>k\<leftarrow>[0..<n]. r ! k * Fin (G ! k ! c)) [0..<m]) (D_rec A)"
  proof -
    have "map (map Fin) G ! k ! c = Fin (G ! k ! c)" if "k < n" "c < m" for k c
      using that Gm by (simp add: is_mat_def list_all_length)
    then show ?thesis by (auto intro!: map_cong arg_cong [where f = sum_list])
  qed
  finally show ?thesis by (simp add: ND_GCN_def G)
qed

lemma sum_list_single:
  fixes x :: "'a::comm_monoid_add"
  assumes "i < n"
  shows "(\<Sum>k\<leftarrow>[0..<n]. if k = i then x else 0) = x"
proof -
  have "(\<Sum>k\<leftarrow>[0..<n]. if k = i then x else 0) = (\<Sum>k\<in>{0..<n}. if k = i then x else 0)"
    by (simp add: interv_sum_list_conv_sum_set_nat)
  also have "\<dots> = x" using assms by simp
  finally show ?thesis .
qed

lemma ND_GCN_row:
  assumes A: "is_mat n n A" and L: "is_mat n m L" and n: "0 < n"
  shows "\<exists>out. ND_GCN A L = Inr out \<and> is_mat n m out
          \<and> (\<forall>i<n. \<forall>c<m. out ! i ! c =
                reciprocal (sum_list (A ! i)) * Fin (\<Sum>j<n. real_of_int (A ! i ! j) * L ! j ! c))"
proof -
  from ND_GNN_ok [OF A L n] obtain G where G: "ND_GNN A L = Inr G"
    and Gnth: "\<forall>i<n. \<forall>c<m. G ! i ! c = (\<Sum>j<n. real_of_int (A ! i ! j) * L ! j ! c)"
    by blast
  have lenA: "length A = n" by (rule is_mat_length [OF A])
  define out where
    "out = map (\<lambda>r. map (\<lambda>c. \<Sum>k\<leftarrow>[0..<n]. r ! k * Fin (G ! k ! c)) [0..<m]) (D_rec A)"
  have lenD: "length (D_rec A) = n"
    using D_rec_is_mat [OF lenA] by (rule is_mat_length)
  have "ND_GCN A L = Inr out"
    unfolding out_def by (rule ND_GCN_eq [OF A L n G])
  moreover have "is_mat n m out"
    by (rule is_matI) (simp_all add: out_def lenD)
  moreover have "out ! i ! c = reciprocal (sum_list (A ! i)) * Fin (\<Sum>j<n. real_of_int (A ! i ! j) * L ! j ! c)"
    if i: "i < n" and c: "c < m" for i c
  proof -
    have "out ! i ! c = (\<Sum>k\<leftarrow>[0..<n]. D_rec A ! i ! k * Fin (G ! k ! c))"
      using i c by (simp add: out_def lenD)
    also have "\<dots> = (\<Sum>k\<leftarrow>[0..<n]. if k = i then reciprocal (sum_list (A ! i)) * Fin (G ! i ! c) else 0)"
    proof (rule arg_cong [where f = sum_list], rule map_cong [OF refl])
      fix k assume "k \<in> set [0..<n]"
      then have k: "k < n" by simp
      show "D_rec A ! i ! k * Fin (G ! k ! c)
          = (if k = i then reciprocal (sum_list (A ! i)) * Fin (G ! i ! c) else 0)"
        using i k by (auto simp: D_rec_nth lenA zero_fval_def)
    qed
    also have "\<dots> = reciprocal (sum_list (A ! i)) * Fin (G ! i ! c)"
      by (rule sum_list_single [OF i])
    finally show ?thesis using Gnth i c by simp
  qed
  ultimately show ?thesis by blast
qed

lemma neighbour_sum:
  assumes "\<forall>j<n::nat. (a j :: int) = 0 \<or> a j = 1"
  shows "(\<Sum>j<n. real_of_int (a j) * g j) = (\<Sum>j | j < n \<and> a j = 1. (g j :: real))"
proof -
  have "(\<Sum>j<n. real_of_int (a j) * g j) = (\<Sum>j\<in>{..<n}. if a j = 1 then g j else 0)"
    using assms by (intro sum.cong) auto
  also have "\<dots> = sum g {j. j < n \<and> a j = 1}"
    by (subst sum.inter_filter [symmetric]) simp_all
  finally show ?thesis .
qed

lemma degree_card:
  assumes "length r = n" and "\<forall>j<n. (r ! j :: int) = 0 \<or> r ! j = 1"
  shows "sum_list r = int (card {j. j < n \<and> r ! j = 1})"
proof -
  have "sum_list r = (\<Sum>j<n. r ! j)"
    using assms(1) by (simp add: sum_list_sum_nth atLeast0LessThan)
  also have "\<dots> = (\<Sum>j\<in>{..<n}. if r ! j = 1 then 1 else 0)"
    using assms(2) by (intro sum.cong) auto
  also have "\<dots> = int (card {j. j < n \<and> r ! j = 1})"
    by (subst sum.inter_filter [symmetric]) simp_all
  finally show ?thesis .
qed

text \<open>
  Claim C3. On an adjacency matrix of zeros and ones in which every node has a neighbour,
  row \<open>i\<close> of the degree-normalised aggregation is the sum of the projected rows of the
  neighbours of \<open>i\<close>, divided by the degree of \<open>i\<close>, the sum of row \<open>i\<close> of the adjacency
  matrix, which is the number of neighbours: the mean of the neighbours' rows.
\<close>

theorem gcn_degree_average:
  assumes A: "is_mat n n A" and L: "is_mat n m L" and n: "0 < n"
    and bin: "\<forall>i<n. \<forall>j<n. A ! i ! j = 0 \<or> A ! i ! j = 1"
    and nb: "\<forall>i<n. \<exists>j<n. A ! i ! j = 1"
  shows "\<exists>out. ND_GCN A L = Inr out \<and> is_mat n m out
    \<and> (\<forall>i<n. sum_list (A ! i) = int (card {j. j < n \<and> A ! i ! j = 1})
          \<and> (\<forall>c<m. out ! i ! c =
                Fin ((\<Sum>j | j < n \<and> A ! i ! j = 1. L ! j ! c) / real_of_int (sum_list (A ! i)))))"
proof -
  from ND_GCN_row [OF A L n] obtain out where out: "ND_GCN A L = Inr out" "is_mat n m out"
    and row: "\<forall>i<n. \<forall>c<m. out ! i ! c =
                reciprocal (sum_list (A ! i)) * Fin (\<Sum>j<n. real_of_int (A ! i ! j) * L ! j ! c)"
    by blast
  have "sum_list (A ! i) = int (card {j. j < n \<and> A ! i ! j = 1})
      \<and> (\<forall>c<m. out ! i ! c =
            Fin ((\<Sum>j | j < n \<and> A ! i ! j = 1. L ! j ! c) / real_of_int (sum_list (A ! i))))"
    if i: "i < n" for i
  proof -
    from bin i have b: "\<forall>j<n. A ! i ! j = 0 \<or> A ! i ! j = 1" by simp
    have len: "length (A ! i) = n" by (rule is_mat_nth [OF A i])
    have deg: "sum_list (A ! i) = int (card {j. j < n \<and> A ! i ! j = 1})"
      by (rule degree_card [OF len b])
    from nb i obtain j where "j < n" "A ! i ! j = 1" by blast
    then have "{j. j < n \<and> A ! i ! j = 1} \<noteq> {}" by blast
    then have "card {j. j < n \<and> A ! i ! j = 1} \<noteq> 0" by simp
    with deg have nz: "sum_list (A ! i) \<noteq> 0" by simp
    have "out ! i ! c = Fin ((\<Sum>j | j < n \<and> A ! i ! j = 1. L ! j ! c) / real_of_int (sum_list (A ! i)))"
      if c: "c < m" for c
      using row i c nz neighbour_sum [OF b, of "\<lambda>j. L ! j ! c"]
      by (simp add: reciprocal_def)
    with deg show ?thesis by simp
  qed
  with out show ?thesis by blast
qed

theorem gcn_degree_average_witness:
  "\<exists>out. ND_GCN [[1, 1], [0, 1]] [[2], [4]] = Inr out \<and> is_mat 2 1 out
     \<and> out ! 0 ! 0 = Fin ((\<Sum>j | j < 2 \<and> [[1, 1], [0, 1 :: int]] ! 0 ! j = 1. [[2], [4]] ! j ! 0) / 2)"
proof -
  have A: "is_mat 2 2 [[1, 1], [0, 1 :: int]]" by (simp add: is_mat_def)
  have L: "is_mat 2 1 [[2], [4 :: real]]" by (simp add: is_mat_def)
  have bin: "\<forall>i<2. \<forall>j<2. [[1, 1], [0, 1 :: int]] ! i ! j = 0 \<or> [[1, 1], [0, 1 :: int]] ! i ! j = 1"
    by (simp add: less_Suc_eq numeral_2_eq_2)
  have nb: "\<forall>i<2. \<exists>j<2. [[1, 1], [0, 1 :: int]] ! i ! j = 1"
    by (auto simp: less_Suc_eq numeral_2_eq_2)
  have n: "0 < (2::nat)" by simp
  from gcn_degree_average [OF A L n bin nb] obtain out
    where out: "ND_GCN [[1, 1], [0, 1]] [[2], [4]] = Inr out" "is_mat 2 1 out"
      and row: "\<forall>i<2. sum_list ([[1, 1], [0, 1 :: int]] ! i)
                    = int (card {j. j < 2 \<and> [[1, 1], [0, 1 :: int]] ! i ! j = 1})
          \<and> (\<forall>c<1. out ! i ! c =
                Fin ((\<Sum>j | j < 2 \<and> [[1, 1], [0, 1 :: int]] ! i ! j = 1. [[2], [4]] ! j ! c)
                     / real_of_int (sum_list ([[1, 1], [0, 1 :: int]] ! i))))"
    by blast
  from row have "out ! 0 ! 0 =
      Fin ((\<Sum>j | j < 2 \<and> [[1, 1], [0, 1 :: int]] ! 0 ! j = 1. [[2], [4]] ! j ! 0) / 2)"
    by simp
  with out show ?thesis by blast
qed

text \<open>
  Claim C4, as the code has it. The degree-normalised aggregation raises no error when a
  node has degree zero. The reciprocal of the degree is infinite, the output is still a
  matrix of \<open>n\<close> rows and \<open>m\<close> columns, and the row of a node without neighbours is
  not-a-number in every column (infinity times the zero sum of its neighbours).
\<close>

theorem gcn_zero_degree_no_error:
  assumes A: "is_mat n n A" and L: "is_mat n m L" and n: "0 < n"
  shows "\<exists>out. ND_GCN A L = Inr out \<and> is_mat n m out
    \<and> (\<forall>i<n. (\<forall>j<n. A ! i ! j = 0) \<longrightarrow> sum_list (A ! i) = 0 \<and> (\<forall>c<m. out ! i ! c = NaN))"
proof -
  from ND_GCN_row [OF A L n] obtain out where out: "ND_GCN A L = Inr out" "is_mat n m out"
    and row: "\<forall>i<n. \<forall>c<m. out ! i ! c =
                reciprocal (sum_list (A ! i)) * Fin (\<Sum>j<n. real_of_int (A ! i ! j) * L ! j ! c)"
    by blast
  have "sum_list (A ! i) = 0 \<and> (\<forall>c<m. out ! i ! c = NaN)"
    if i: "i < n" and z: "\<forall>j<n. A ! i ! j = 0" for i
  proof -
    have len: "length (A ! i) = n" by (rule is_mat_nth [OF A i])
    have "sum_list (A ! i) = (\<Sum>j<n. A ! i ! j)"
      using len by (simp add: sum_list_sum_nth atLeast0LessThan)
    with z have deg: "sum_list (A ! i) = 0" by simp
    have "out ! i ! c = NaN" if c: "c < m" for c
      using row i c z deg by (simp add: reciprocal_def)
    with deg show ?thesis by simp
  qed
  with out show ?thesis by blast
qed

text \<open>No \<open>ZeroDegreeError\<close>: a node of degree zero, and an output matrix all the same.\<close>

theorem gcn_zero_degree_counterexample:
  "sum_list ([[0, 0], [0, 1 :: int]] ! 0) = 0
   \<and> ND_GCN [[0, 0], [0, 1]] [[1], [2]] = Inr [[NaN], [Fin 2]]"
  by (simp add: ND_GCN_def ND_GNN_def dot_def as_float_def ncols_def D_rec_def diag_def D_def
      reciprocal_def upt_rec zero_fval_def)

theorem gcn_zero_degree_no_error_witness:
  "\<exists>out. ND_GCN [[0, 0], [0, 1]] [[1], [2]] = Inr out \<and> is_mat 2 1 out \<and> out ! 0 ! 0 = NaN"
proof -
  have A: "is_mat 2 2 [[0, 0], [0, 1 :: int]]" by (simp add: is_mat_def)
  have L: "is_mat 2 1 [[1], [2 :: real]]" by (simp add: is_mat_def)
  have n: "0 < (2::nat)" by simp
  from gcn_zero_degree_no_error [OF A L n] obtain out
    where out: "ND_GCN [[0, 0], [0, 1]] [[1], [2]] = Inr out" "is_mat 2 1 out"
      and row: "\<forall>i<2. (\<forall>j<2. [[0, 0], [0, 1 :: int]] ! i ! j = 0) \<longrightarrow>
                  sum_list ([[0, 0], [0, 1 :: int]] ! i) = 0 \<and> (\<forall>c<1. out ! i ! c = NaN)"
    by blast
  have "\<forall>j<2. [[0, 0], [0, 1 :: int]] ! 0 ! j = 0"
    by (simp add: less_Suc_eq numeral_2_eq_2)
  with row have "out ! 0 ! 0 = NaN" by simp
  with out show ?thesis by blast
qed

text \<open>On matrices of fitting shapes the plain layer returns a matrix.\<close>

lemma GNN_ok:
  assumes X: "is_mat n f X" and W: "is_mat f m W" and A: "is_mat n n A"
    and n: "0 < n" and f: "0 < f"
  shows "\<exists>G. GNN X W A = Inr G \<and> is_mat n m G"
proof -
  from L_0_ok [OF X W f] obtain L where L: "L_0 X W = Inr L" "is_mat n m L" by blast
  from ND_GNN_ok [OF A L(2) n] obtain G where "ND_GNN A L = Inr G" "is_mat n m G" by blast
  with L(1) show ?thesis by (auto simp: GNN_def)
qed

section \<open>Several heads\<close>

lemma length_concat_uniform:
  "list_all (\<lambda>r. length r = m) xss \<Longrightarrow> length (concat xss) = length xss * m"
  by (induction xss) simp_all

lemma nth_concat_uniform:
  "list_all (\<lambda>r. length r = m) xss \<Longrightarrow> k < length xss \<Longrightarrow> j < m \<Longrightarrow>
     concat xss ! (k * m + j) = xss ! k ! j"
proof (induction xss arbitrary: k)
  case Nil
  then show ?case by simp
next
  case (Cons r xss)
  show ?case
  proof (cases k)
    case 0
    with Cons.prems show ?thesis by (simp add: nth_append)
  next
    case (Suc k')
    with Cons.prems have "concat xss ! (k' * m + j) = xss ! k' ! j"
      by (intro Cons.IH) simp_all
    with Suc Cons.prems show ?thesis by (simp add: nth_append)
  qed
qed

lemma concatenate_heads:
  assumes heads: "list_all (is_mat n m) layers" and K: "layers \<noteq> []"
  shows "\<exists>out. concatenate_axis1 layers = Inr out \<and> is_mat n (length layers * m) out
          \<and> (\<forall>i<n. \<forall>k<length layers. \<forall>j<m. out ! i ! (k * m + j) = layers ! k ! i ! j)"
proof -
  from K obtain L Ls where layers: "layers = L # Ls" by (cases layers) auto
  define out where "out = map (\<lambda>i. concat (map (\<lambda>M. M ! i) layers)) [0..<n]"
  from heads have len: "\<forall>M\<in>set layers. length M = n"
    by (simp add: list_all_iff is_mat_def)
  have rows: "list_all (\<lambda>r. length r = m) (map (\<lambda>M. M ! i) layers)" if "i < n" for i
    using heads that by (auto simp: list_all_iff is_mat_def)
  have "concatenate_axis1 layers = Inr out"
    using len by (simp add: concatenate_axis1_def layers out_def list_all_iff)
  moreover have "is_mat n (length layers * m) out"
    by (rule is_matI) (simp_all add: out_def length_concat_uniform [OF rows])
  moreover have "out ! i ! (k * m + j) = layers ! k ! i ! j"
    if "i < n" "k < length layers" "j < m" for i k j
    using that nth_concat_uniform [OF rows [OF that(1)], of k j] by (simp add: out_def)
  ultimately show ?thesis by blast
qed

text \<open>
  Claim C1 at two heads for five nodes and an embedding of dimension three. The notebook's
  \<open>average\<close> is one number, the sum of all thirty entries divided by 30, where the mean
  of the heads entry by entry is a matrix of five rows and three columns.
\<close>

theorem average_is_one_number:
  "list_all (is_mat 5 3) [head1, head2]
   \<and> average [head1, head2] = 1
   \<and> spec_average [head1, head2] = [[15, 0, 0], [0, 0, 0], [0, 0, 0], [0, 0, 0], [0, 0, 0]]"
  by (simp add: average_def spec_average_def head1_def head2_def is_mat_def ncols_def upt_rec)

section \<open>The stages of the GAT layer\<close>

lemma put_length [simp]: "length (put M cv) = length M"
  by (simp add: put_def)

lemma put_row_length [simp]: "a < length M \<Longrightarrow> length (put M cv ! a) = length (M ! a)"
  by (cases "a = fst (fst cv)") (simp_all add: put_def)

lemma put_nth:
  "a < length M \<Longrightarrow> b < length (M ! a) \<Longrightarrow>
     put M ((i, j), v) ! a ! b = (if a = i \<and> b = j then v else M ! a ! b)"
  by (cases "a = i"; cases "b = j") (simp_all add: put_def)

lemma foldl_put_length [simp]: "length (foldl put M cvs) = length M"
  by (induction cvs arbitrary: M) simp_all

lemma foldl_put_row_length [simp]:
  "a < length M \<Longrightarrow> length (foldl put M cvs ! a) = length (M ! a)"
  by (induction cvs arbitrary: M) simp_all

lemma foldl_put_map:
  assumes "a < length M" and "b < length (M ! a)"
  shows "foldl put M (map (\<lambda>c. (c, g c)) cs) ! a ! b
           = (if (a, b) \<in> set cs then g (a, b) else M ! a ! b)"
proof (induction cs rule: rev_induct)
  case Nil
  show ?case by simp
next
  case (snoc c cs)
  obtain i j where c: "c = (i, j)" by (cases c)
  from assms show ?case
    by (simp add: c put_nth snoc.IH)
qed

lemma zip_map_self: "zip cs (map g cs) = map (\<lambda>c. (c, g c)) cs"
  by (induction cs) simp_all

lemma set_at_map:
  "set_at M cs (map g cs) = Inr (foldl put M (map (\<lambda>c. (c, g c)) cs))"
  by (simp add: set_at_def zip_map_self)

lemma zeros_is_mat: "is_mat n k (zeros n k)"
  by (simp add: zeros_def is_mat_def list_all_iff)

lemma zeros_nth [simp]: "a < n \<Longrightarrow> b < k \<Longrightarrow> zeros n k ! a ! b = 0"
  by (simp add: zeros_def)

lemma zeros_length [simp]: "length (zeros n k) = n"
  by (simp add: zeros_def)

lemma zeros_row_length [simp]: "a < n \<Longrightarrow> length (zeros n k ! a) = k"
  by (simp add: zeros_def)

lemma set_edge_coords:
  assumes "is_mat n n A" and "0 < n"
  shows "set (edge_coords A) = {(i, j). i < n \<and> j < n \<and> A ! i ! j = 1}"
  using assms is_mat_ncols [OF assms] by (auto simp: edge_coords_def is_mat_def)

lemma scatter_zeros:
  assumes A: "is_mat n n A" and n: "0 < n" and a: "a < n" and b: "b < n"
  shows "foldl put (zeros n n) (map (\<lambda>c. (c, g c)) (edge_coords A)) ! a ! b
           = (if A ! a ! b = 1 then g (a, b) else 0)"
proof -
  have "foldl put (zeros n n) (map (\<lambda>c. (c, g c)) (edge_coords A)) ! a ! b
      = (if (a, b) \<in> set (edge_coords A) then g (a, b) else zeros n n ! a ! b)"
    using a b by (intro foldl_put_map) simp_all
  then show ?thesis using a b by (simp add: set_edge_coords [OF A n])
qed

lemma take_rows_ok:
  "list_all (\<lambda>i. i < length z) idx \<Longrightarrow> take_rows z idx = Inr (map (\<lambda>i. z ! i) idx)"
  by (simp add: take_rows_def)

lemma z2_eq:
  assumes "\<forall>c\<in>set ec. fst c < length z \<and> snd c < length z"
  shows "z2 z ec = Inr (map (\<lambda>c. z ! fst c @ z ! snd c) ec)"
proof -
  have "map2 (@) (map (\<lambda>i. z ! i) (map fst ec)) (map (\<lambda>i. z ! i) (map snd ec))
      = map (\<lambda>c. z ! fst c @ z ! snd c) ec"
    by (induction ec) simp_all
  with assms show ?thesis
    by (simp add: z2_def take_rows_ok list_all_iff)
qed

lemma e_eq:
  assumes Z: "is_mat n m Z" and att: "is_mat 1 (2 * m) att" and m: "0 < m"
    and ec: "\<forall>c\<in>set ec. fst c < n \<and> snd c < n"
  shows "e Z att ec = Inr (map (\<lambda>c. [edge_score Z att c]) ec)"
proof -
  have one: "0 < (1::nat)" by simp
  from m have m2: "0 < 2 * m" by simp
  have lenZ: "length Z = n" by (rule is_mat_length [OF Z])
  have nca: "ncols att = 2 * m" by (rule is_mat_ncols [OF att one])
  have Ta: "is_mat (2 * m) 1 (T att)" by (rule T_is_mat [OF att one])
  have lenT: "length (T att) = 2 * m" by (rule is_mat_length [OF Ta])
  have ncT: "ncols (T att) = 1" by (rule is_mat_ncols [OF Ta m2])
  have Tn: "T att ! k ! 0 = att ! 0 ! k" if "k < 2 * m" for k
    using that by (intro T_nth [OF att one]) simp_all
  define z2v where "z2v = map (\<lambda>c. Z ! fst c @ Z ! snd c) ec"
  have z2v: "z2 Z ec = Inr z2v"
    unfolding z2v_def using ec by (intro z2_eq) (simp add: lenZ)
  have rows: "is_mat (length ec) (2 * m) z2v"
  proof (rule is_matI)
    show "length z2v = length ec" by (simp add: z2v_def)
    fix i assume i: "i < length ec"
    then have "ec ! i \<in> set ec" by simp
    with ec have "fst (ec ! i) < n" "snd (ec ! i) < n" by auto
    with i show "length (z2v ! i) = 2 * m"
      by (simp add: z2v_def is_mat_nth [OF Z])
  qed
  have "dot z2v (T att) = Inr (map (\<lambda>r. map (\<lambda>j. \<Sum>k<2 * m. r ! k * T att ! k ! j) [0..<1]) z2v)"
    using dot_eq [OF rows lenT] by (simp add: ncT)
  also have "map (\<lambda>r. map (\<lambda>j. \<Sum>k<2 * m. r ! k * T att ! k ! j) [0..<1]) z2v
      = map (\<lambda>r. [\<Sum>k\<leftarrow>[0..<2 * m]. r ! k * att ! 0 ! k]) z2v"
    by (simp add: Tn sum_list_upt)
  finally have "e Z att ec = Inr (map (map leaky_relu) (map (\<lambda>r. [\<Sum>k\<leftarrow>[0..<2 * m]. r ! k * att ! 0 ! k]) z2v))"
    by (simp add: e_def z2v)
  then show ?thesis
    by (simp add: z2v_def edge_score_def nca comp_def)
qed

lemma concat_singletons: "concat (map (\<lambda>c. [g c]) cs) = map g cs"
  by (induction cs) simp_all

lemma e_matr_eq:
  assumes A: "is_mat n n A" and n: "0 < n"
  shows "e_matr A (edge_coords A) (map (\<lambda>c. [g c]) (edge_coords A))
           = Inr (foldl put (zeros n n) (map (\<lambda>c. (c, g c)) (edge_coords A)))"
  using is_mat_length [OF A] is_mat_ncols [OF A n]
  by (simp add: e_matr_def concat_singletons set_at_map)

lemma column_scatter:
  assumes A: "is_mat n n A" and n: "0 < n" and i: "i < n"
  shows "column (foldl put (zeros n n) (map (\<lambda>c. (c, g c)) (edge_coords A))) i
           = map (\<lambda>s. if A ! s ! i = 1 then g (s, i) else 0) [0..<n]"
proof (rule nth_equalityI)
  show "length (column (foldl put (zeros n n) (map (\<lambda>c. (c, g c)) (edge_coords A))) i)
      = length (map (\<lambda>s. if A ! s ! i = 1 then g (s, i) else 0) [0..<n])"
    by simp
next
  fix s assume "s < length (column (foldl put (zeros n n) (map (\<lambda>c. (c, g c)) (edge_coords A))) i)"
  then have s: "s < n" by simp
  then show "column (foldl put (zeros n n) (map (\<lambda>c. (c, g c)) (edge_coords A))) i ! s
      = map (\<lambda>s. if A ! s ! i = 1 then g (s, i) else 0) [0..<n] ! s"
    using scatter_zeros [OF A n s i, of g] by simp
qed

lemma filter_nonzero_map:
  "filter (\<lambda>x. x \<noteq> (0::real)) (map (\<lambda>s. if P s then g s else 0) xs)
     = map g (filter (\<lambda>s. P s \<and> g s \<noteq> 0) xs)"
  by (induction xs) simp_all

lemma ncols_scatter: "0 < n \<Longrightarrow> ncols (foldl put (zeros n k) cvs) = k"
proof -
  assume n: "0 < n"
  have "ncols M = length (M ! 0)" if "M \<noteq> []" for M :: matrix
    using that by (cases M) (simp_all add: ncols_def)
  moreover from n have "foldl put (zeros n k) cvs \<noteq> []"
    by (metis foldl_put_length length_0_conv less_numeral_extra(3) zeros_length)
  ultimately have "ncols (foldl put (zeros n k) cvs) = length (foldl put (zeros n k) cvs ! 0)"
    by blast
  with n show ?thesis by simp
qed

lemma alpha_node_scatter:
  assumes A: "is_mat n n A" and n: "0 < n" and i: "i < n"
  shows "alpha_node (foldl put (zeros n n) (map (\<lambda>c. (c, g c)) (edge_coords A))) i
           = softmax_vector (map (\<lambda>s. g (s, i)) (filter (\<lambda>s. A ! s ! i = 1 \<and> g (s, i) \<noteq> 0) [0..<n]))"
  using i by (simp add: alpha_node_def ncols_scatter [OF n] column_scatter [OF A n i] filter_nonzero_map)

lemma upt5: "[0..<5] = [0, 1, 2, 3, 4]"
  by (simp add: upt_rec)

lemma alpha_upt:
  "alpha em = and_then (sequence (map (alpha_node em) [0..<5])) (\<lambda>as. Inr (concat as))"
  by (simp only: alpha_def upt5 list.map)

lemma softmax_vector_error: "softmax_vector z = Inl err \<Longrightarrow> err = ValueError \<and> z = []"
  by (cases z) (simp_all add: softmax_vector_def)

lemma sequence_error:
  assumes "x \<in> set xs" and "g x = Inl E"
    and "\<forall>y\<in>set xs. \<forall>err. g y = Inl err \<longrightarrow> err = E"
  shows "sequence (map g xs) = Inl E"
  using assms
proof (induction xs)
  case Nil
  then show ?case by simp
next
  case (Cons a xs)
  show ?case
  proof (cases "g a")
    case (Inl err)
    from Cons.prems(3) Inl have "err = E" by simp
    with Inl show ?thesis by simp
  next
    case (Inr v)
    from Cons.prems(1,2) Inr have x: "x \<in> set xs" by auto
    from Cons.prems(3) have "\<forall>y\<in>set xs. \<forall>err. g y = Inl err \<longrightarrow> err = E" by simp
    from Cons.IH [OF x Cons.prems(2) this] have "sequence (map g xs) = Inl E" .
    with Inr show ?thesis by simp
  qed
qed

lemma edge_coords_bound:
  assumes "is_mat n n A" and "0 < n"
  shows "\<forall>c\<in>set (edge_coords A). fst c < n \<and> snd c < n"
  by (auto simp: set_edge_coords [OF assms])

lemma incoming_eq:
  "length A = n \<Longrightarrow> incoming A i = filter (\<lambda>s. A ! s ! i = 1) [0..<n]"
  by (simp add: incoming_def)

lemma gat_isolated_node:
  assumes X: "is_mat n f X" and W: "is_mat m f W" and att: "is_mat 1 (2 * m) att"
    and A: "is_mat n n A" and n5: "5 \<le> n" and f: "0 < f" and m: "0 < m"
    and i5: "i < 5" and iso: "\<forall>s<n. A ! s ! i \<noteq> 1"
  shows "ND_GAT X W att A = Inl ValueError"
proof -
  from n5 have n: "0 < n" by simp
  from n5 i5 have i: "i < n" by simp
  from z1_ok [OF X W m f] obtain Z where Z: "z1 X W = Inr Z" "is_mat n m Z" by blast
  define g where "g = edge_score Z att"
  define em where "em = foldl put (zeros n n) (map (\<lambda>c. (c, g c)) (edge_coords A))"
  have ev: "e Z att (edge_coords A) = Inr (map (\<lambda>c. [g c]) (edge_coords A))"
    unfolding g_def by (rule e_eq [OF Z(2) att m edge_coords_bound [OF A n]])
  have em: "e_matr A (edge_coords A) (map (\<lambda>c. [g c]) (edge_coords A)) = Inr em"
    unfolding em_def by (rule e_matr_eq [OF A n])
  have "filter (\<lambda>s. A ! s ! i = 1 \<and> g (s, i) \<noteq> 0) [0..<n] = []"
    using iso by (simp add: filter_empty_conv)
  then have "alpha_node em i = softmax_vector []"
    unfolding em_def by (simp add: alpha_node_scatter [OF A n i])
  then have here: "alpha_node em i = Inl ValueError"
    by (simp add: softmax_vector_def)
  have nc: "ncols em = n"
    unfolding em_def by (rule ncols_scatter [OF n])
  have "\<forall>y\<in>set [0..<5]. \<forall>err. alpha_node em y = Inl err \<longrightarrow> err = ValueError"
  proof (intro ballI allI impI)
    fix y err assume "y \<in> set [0..<5]" and err: "alpha_node em y = Inl err"
    with n5 have "y < ncols em" by (simp add: nc)
    with err show "err = ValueError"
      by (auto simp: alpha_node_def dest: softmax_vector_error)
  qed
  with here i5 have "sequence (map (alpha_node em) [0..<5]) = Inl ValueError"
    by (intro sequence_error [of i]) simp_all
  then have "alpha em = Inl ValueError" by (simp only: alpha_upt and_then_Inl)
  then have "attention Z att A = Inl ValueError"
    by (simp add: attention_def ev em)
  then show ?thesis by (simp add: ND_GAT_def Z(1))
qed

lemma zip_map_fst: "zip (map h xs) xs = map (\<lambda>x. (h x, x)) xs"
  by (induction xs) simp_all

lemma gat_symmetric_rows:
  assumes X: "is_mat n f X" and W: "is_mat m f W" and att: "is_mat 1 (2 * m) att"
    and A: "is_mat n n A" and n5: "n = 5" and f: "0 < f" and m: "0 < m"
    and Z: "z1 X W = Inr Z"
    and sym: "\<forall>i<n. \<forall>j<n. A ! i ! j = A ! j ! i"
    and inc: "\<forall>i<n. \<exists>j<n. A ! j ! i = 1"
    and nz: "\<forall>i<n. \<forall>j<n. A ! j ! i = 1 \<longrightarrow> edge_score Z att (j, i) \<noteq> 0"
  shows "\<exists>As out. attention Z att A = Inr As \<and> is_mat n n As
      \<and> ND_GAT X W att A = Inr out \<and> is_mat n m out
      \<and> (\<forall>i<n. \<exists>ws. softmax_vector (map (\<lambda>j. edge_score Z att (j, i)) (incoming A i)) = Inr ws
            \<and> (\<forall>k<length (incoming A i). As ! i ! (incoming A i ! k) = ws ! k)
            \<and> (\<forall>j<n. A ! j ! i \<noteq> 1 \<longrightarrow> As ! i ! j = 0)
            \<and> (\<forall>c<m. out ! i ! c = (\<Sum>(w, j)\<leftarrow>zip ws (incoming A i). w * Z ! j ! c)))"
proof -
  from n5 have n: "0 < n" by simp
  from z1_ok [OF X W m f] Z have Zm: "is_mat n m Z" by auto
  have lenA: "length A = n" by (rule is_mat_length [OF A])
  have ncA: "ncols A = n" by (rule is_mat_ncols [OF A n])
  have lenZ: "length Z = n" by (rule is_mat_length [OF Zm])
  have ncZ: "ncols Z = m" by (rule is_mat_ncols [OF Zm n])
  define g where "g = edge_score Z att"
  define ec where "ec = edge_coords A"
  define em where "em = foldl put (zeros n n) (map (\<lambda>c. (c, g c)) ec)"
  define zs where "zs i = map (\<lambda>s. g (s, i)) (incoming A i)" for i
  define h where "h i x = exp (x - Max (set (zs i))) / (\<Sum>y\<leftarrow>zs i. exp (y - Max (set (zs i))))" for i x
  define ws where "ws i = map (\<lambda>s. h i (g (s, i))) (incoming A i)" for i
  define q where "q c = h (fst c) (g (snd c, fst c))" for c :: "nat \<times> nat"
  define As where "As = foldl put (zeros n n) (map (\<lambda>c. (c, q c)) ec)"
  define out where "out = map (\<lambda>r. map (\<lambda>c. \<Sum>k<n. r ! k * Z ! k ! c) [0..<m]) As"

  have ev: "e Z att ec = Inr (map (\<lambda>c. [g c]) ec)"
    unfolding g_def ec_def by (rule e_eq [OF Zm att m edge_coords_bound [OF A n]])
  have em: "e_matr A ec (map (\<lambda>c. [g c]) ec) = Inr em"
    unfolding em_def ec_def by (rule e_matr_eq [OF A n])

  have zs_ne: "zs i \<noteq> []" if i: "i < n" for i
  proof -
    from inc i obtain j where "j < n" "A ! j ! i = 1" by blast
    then have "j \<in> set (incoming A i)" by (simp add: incoming_eq [OF lenA])
    then show ?thesis by (auto simp: zs_def)
  qed
  have soft: "softmax_vector (zs i) = Inr (ws i)" if i: "i < n" for i
    using softmax_vector_eq [OF zs_ne [OF i]]
    by (simp add: ws_def h_def zs_def comp_def)
  have node: "alpha_node em i = Inr (ws i)" if i: "i < n" for i
  proof -
    have "filter (\<lambda>s. A ! s ! i = 1 \<and> g (s, i) \<noteq> 0) [0..<n] = incoming A i"
      unfolding incoming_eq [OF lenA]
      using nz i by (intro filter_cong) (auto simp: g_def)
    then have "alpha_node em i = softmax_vector (zs i)"
      unfolding em_def ec_def by (simp add: alpha_node_scatter [OF A n i] zs_def)
    with soft [OF i] show ?thesis by simp
  qed
  have "sequence (map (alpha_node em) [0..<n]) = Inr (map ws [0..<n])"
    by (rule sequence_map_cong_Inr) (simp add: node)
  then have al: "alpha em = Inr (concat (map ws [0..<n]))"
    by (simp only: alpha_upt n5 [symmetric] and_then_Inr)

  have "map q ec = concat (map (\<lambda>i. map (\<lambda>j. q (i, j)) (filter (\<lambda>j. A ! i ! j = 1) [0..<n])) [0..<n])"
    by (simp add: ec_def edge_coords_def lenA ncA map_concat comp_def)
  also have "\<dots> = concat (map ws [0..<n])"
  proof (rule arg_cong [where f = concat], rule map_cong [OF refl])
    fix i assume "i \<in> set [0..<n]"
    then have i: "i < n" by simp
    have "filter (\<lambda>j. A ! i ! j = 1) [0..<n] = incoming A i"
      unfolding incoming_eq [OF lenA]
      using sym i by (intro filter_cong) auto
    then show "map (\<lambda>j. q (i, j)) (filter (\<lambda>j. A ! i ! j = 1) [0..<n]) = ws i"
      by (simp add: ws_def q_def)
  qed
  finally have alq: "concat (map ws [0..<n]) = map q ec" by simp
  have As: "A_scaled A ec (map q ec) = Inr As"
    by (simp add: A_scaled_def lenA ncA set_at_map As_def)
  have att_eq: "attention Z att A = Inr As"
    by (simp add: attention_def ec_def [symmetric] ev em al alq As)

  have As_nth: "As ! i ! j = (if A ! i ! j = 1 then q (i, j) else 0)" if "i < n" "j < n" for i j
    unfolding As_def ec_def by (rule scatter_zeros [OF A n that])
  have As_mat: "is_mat n n As"
    by (rule is_matI) (simp_all add: As_def)
  have "dot As Z = Inr out"
    unfolding out_def using dot_eq [OF As_mat lenZ] by (simp add: ncZ)
  then have gat: "ND_GAT X W att A = Inr out"
    by (simp add: ND_GAT_def Z att_eq)
  have out_mat: "is_mat n m out"
    using As_mat by (intro is_matI) (simp_all add: out_def is_mat_def)

  have row: "\<exists>ws'. softmax_vector (map (\<lambda>j. edge_score Z att (j, i)) (incoming A i)) = Inr ws'
            \<and> (\<forall>k<length (incoming A i). As ! i ! (incoming A i ! k) = ws' ! k)
            \<and> (\<forall>j<n. A ! j ! i \<noteq> 1 \<longrightarrow> As ! i ! j = 0)
            \<and> (\<forall>c<m. out ! i ! c = (\<Sum>(w, j)\<leftarrow>zip ws' (incoming A i). w * Z ! j ! c))"
    if i: "i < n" for i
  proof -
    have s: "softmax_vector (map (\<lambda>j. edge_score Z att (j, i)) (incoming A i)) = Inr (ws i)"
      using soft [OF i] by (simp add: zs_def g_def)
    have place: "As ! i ! (incoming A i ! k) = ws i ! k" if k: "k < length (incoming A i)" for k
    proof -
      from k have "incoming A i ! k \<in> set (incoming A i)" by simp
      then have j: "incoming A i ! k < n" "A ! (incoming A i ! k) ! i = 1"
        by (simp_all add: incoming_eq [OF lenA])
      with sym i have "A ! i ! (incoming A i ! k) = 1" by simp
      with As_nth [OF i j(1)] k show ?thesis by (simp add: q_def ws_def)
    qed
    have zero: "As ! i ! j = 0" if "j < n" "A ! j ! i \<noteq> 1" for j
      using As_nth [OF i that(1)] sym i that by simp
    have val: "out ! i ! c = (\<Sum>(w, j)\<leftarrow>zip (ws i) (incoming A i). w * Z ! j ! c)" if c: "c < m" for c
    proof -
      have "out ! i ! c = (\<Sum>k\<leftarrow>[0..<n]. As ! i ! k * Z ! k ! c)"
        using i c As_mat by (simp add: out_def is_mat_def sum_list_upt)
      also have "\<dots> = (\<Sum>k\<leftarrow>[0..<n]. if A ! k ! i = 1 then q (i, k) * Z ! k ! c else 0)"
      proof (rule arg_cong [where f = sum_list], rule map_cong [OF refl])
        fix k assume "k \<in> set [0..<n]"
        then have k: "k < n" by simp
        with sym i have "A ! i ! k = A ! k ! i" by simp
        with As_nth [OF i k]
        show "As ! i ! k * Z ! k ! c = (if A ! k ! i = 1 then q (i, k) * Z ! k ! c else 0)"
          by simp
      qed
      also have "\<dots> = (\<Sum>k\<leftarrow>incoming A i. q (i, k) * Z ! k ! c)"
        by (simp add: incoming_eq [OF lenA] sum_list_map_filter')
      also have "\<dots> = (\<Sum>(w, j)\<leftarrow>zip (ws i) (incoming A i). w * Z ! j ! c)"
        by (simp add: ws_def zip_map_fst comp_def q_def)
      finally show ?thesis .
    qed
    from s place zero val show ?thesis by blast
  qed
  from att_eq As_mat gat out_mat row show ?thesis by blast
qed

text \<open>
  When the scores of the edges into node \<open>i\<close> are nonzero, the weights of node \<open>i\<close> are the
  softmax of exactly these scores, and they sum to one.
\<close>

lemma gat_weights_nonzero_scores:
  assumes Z: "is_mat n m Z" and att: "is_mat 1 (2 * m) att" and A: "is_mat n n A"
    and n: "0 < n" and m: "0 < m" and i: "i < n"
    and inc: "\<exists>j<n. A ! j ! i = 1"
    and nz: "\<forall>j<n. A ! j ! i = 1 \<longrightarrow> edge_score Z att (j, i) \<noteq> 0"
  shows "\<exists>em ws. and_then (e Z att (edge_coords A)) (e_matr A (edge_coords A)) = Inr em
      \<and> alpha_node em i = Inr ws
      \<and> softmax_vector (map (\<lambda>j. edge_score Z att (j, i)) (incoming A i)) = Inr ws
      \<and> sum_list ws = 1"
proof -
  have lenA: "length A = n" by (rule is_mat_length [OF A])
  define g where "g = edge_score Z att"
  define em where "em = foldl put (zeros n n) (map (\<lambda>c. (c, g c)) (edge_coords A))"
  define zs where "zs = map (\<lambda>j. g (j, i)) (incoming A i)"
  define ws where "ws = map (\<lambda>x. exp (x - Max (set zs)) / (\<Sum>y\<leftarrow>zs. exp (y - Max (set zs)))) zs"
  have ev: "e Z att (edge_coords A) = Inr (map (\<lambda>c. [g c]) (edge_coords A))"
    unfolding g_def by (rule e_eq [OF Z att m edge_coords_bound [OF A n]])
  have em: "e_matr A (edge_coords A) (map (\<lambda>c. [g c]) (edge_coords A)) = Inr em"
    unfolding em_def by (rule e_matr_eq [OF A n])
  from inc obtain j where "j < n" "A ! j ! i = 1" by blast
  then have "j \<in> set (incoming A i)" by (simp add: incoming_eq [OF lenA])
  then have ne: "zs \<noteq> []" by (auto simp: zs_def)
  have soft: "softmax_vector zs = Inr ws"
    unfolding ws_def by (rule softmax_vector_eq [OF ne])
  have "filter (\<lambda>s. A ! s ! i = 1 \<and> g (s, i) \<noteq> 0) [0..<n] = incoming A i"
    unfolding incoming_eq [OF lenA]
    using nz by (intro filter_cong) (auto simp: g_def)
  then have "alpha_node em i = softmax_vector zs"
    unfolding em_def by (simp add: alpha_node_scatter [OF A n i] zs_def)
  with soft have node: "alpha_node em i = Inr ws" by simp
  have "sum_list ws = 1"
    unfolding ws_def by (rule softmax_vector_sum [OF ne])
  with ev em node soft show ?thesis
    by (auto simp: zs_def g_def)
qed

section \<open>The GAT layer on graphs of five nodes\<close>

lemma upt2: "[0..<2] = [0, 1]"
  by (simp add: upt_rec)

lemma upt1: "[0..<1] = [0]"
  by (simp add: upt_rec)

lemma z1_ones: "z1 eye5 W_ones = Inr [[1], [1], [1], [1], [1]]"
  by (simp add: z1_def dot_def T_def ncols_def column_def eye5_def W_ones_def upt5 upt1)

lemma ec_directed: "edge_coords A_directed = [(0, 0), (0, 1), (1, 1), (2, 2), (3, 3), (4, 4)]"
  by (simp add: edge_coords_def A_directed_def ncols_def upt5)

lemma e_directed:
  "e [[1], [1], [1], [1], [1]] att_ones [(0, 0), (0, 1), (1, 1), (2, 2), (3, 3), (4, 4)]
     = Inr [[2], [2], [2], [2], [2], [2]]"
  by (simp add: e_def z2_def take_rows_def dot_def T_def ncols_def column_def att_ones_def
      leaky_relu_def upt2 upt1)

lemma e_matr_directed:
  "e_matr A_directed [(0, 0), (0, 1), (1, 1), (2, 2), (3, 3), (4, 4)] [[2], [2], [2], [2], [2], [2]]
     = Inr [[2, 2, 0, 0, 0], [0, 2, 0, 0, 0], [0, 0, 2, 0, 0], [0, 0, 0, 2, 0], [0, 0, 0, 0, 2]]"
  by (simp add: e_matr_def set_at_def put_def zeros_def A_directed_def ncols_def
      numeral_eq_Suc)

lemma softmax_vector_2: "softmax_vector [2] = Inr [1]"
  by (simp add: softmax_vector_def)

lemma softmax_vector_22: "softmax_vector [2, 2] = Inr [1 / 2, 1 / 2]"
  by (simp add: softmax_vector_def)

lemma alpha_directed:
  "alpha [[2, 2, 0, 0, 0], [0, 2, 0, 0, 0], [0, 0, 2, 0, 0], [0, 0, 0, 2, 0], [0, 0, 0, 0, 2]]
     = Inr [1, 1 / 2, 1 / 2, 1, 1, 1]"
  by (simp add: alpha_def alpha_node_def column_def ncols_def
      softmax_vector_2 softmax_vector_22)

lemma A_scaled_directed:
  "A_scaled A_directed [(0, 0), (0, 1), (1, 1), (2, 2), (3, 3), (4, 4)] [1, 1 / 2, 1 / 2, 1, 1, 1]
     = Inr [[1, 1 / 2, 0, 0, 0], [0, 1 / 2, 0, 0, 0], [0, 0, 1, 0, 0], [0, 0, 0, 1, 0], [0, 0, 0, 0, 1]]"
  by (simp add: A_scaled_def set_at_def put_def zeros_def A_directed_def ncols_def
      numeral_eq_Suc)

lemma dot_directed:
  "dot [[1, 1 / 2, 0, 0, 0], [0, 1 / 2, 0, 0, 0], [0, 0, 1, 0, 0], [0, 0, 0, 1, 0], [0, 0, 0, 0, 1]]
       [[1], [1], [1], [1], [1 :: real]]
     = Inr [[3 / 2], [1 / 2], [1], [1], [1]]"
  by (simp add: dot_def ncols_def upt5 upt1)

lemma ncols_A_directed: "ncols A_directed = 5"
  by (simp add: A_directed_def ncols_def)

lemma attention_directed:
  "attention [[1], [1], [1], [1], [1]] att_ones A_directed
     = Inr [[1, 1 / 2, 0, 0, 0], [0, 1 / 2, 0, 0, 0], [0, 0, 1, 0, 0], [0, 0, 0, 1, 0], [0, 0, 0, 0, 1]]"
  by (simp only: attention_def ec_directed e_directed e_matr_directed ncols_A_directed
      alpha_directed A_scaled_directed and_then_Inr)

lemma ND_GAT_directed:
  "ND_GAT eye5 W_ones att_ones A_directed = Inr [[3 / 2], [1 / 2], [1], [1], [1]]"
  by (simp only: ND_GAT_def z1_ones attention_directed dot_directed and_then_Inr)

lemma incoming_directed: "incoming A_directed 0 = [0] \<and> incoming A_directed 1 = [0, 1]"
  by (simp add: incoming_def A_directed_def upt5)

lemma all_less_5: "(\<forall>i<5. P i) \<longleftrightarrow> P 0 \<and> P 1 \<and> P 2 \<and> P 3 \<and> P (4::nat)"
proof
  assume "\<forall>i<5. P i"
  then show "P 0 \<and> P 1 \<and> P 2 \<and> P 3 \<and> P 4" by simp
next
  assume a: "P 0 \<and> P 1 \<and> P 2 \<and> P 3 \<and> P 4"
  show "\<forall>i<5. P i"
  proof (intro allI impI)
    fix i :: nat assume "i < 5"
    then have "i = 0 \<or> i = 1 \<or> i = 2 \<or> i = 3 \<or> i = 4" by arith
    with a show "P i" by auto
  qed
qed

lemma eye5_mat: "is_mat 5 5 eye5"
  by (simp add: is_mat_def eye5_def)

lemma W_ones_mat: "is_mat 1 5 W_ones"
  by (simp add: is_mat_def W_ones_def)

lemma W_neg_mat: "is_mat 1 5 W_neg"
  by (simp add: is_mat_def W_neg_def)

lemma att_ones_mat: "is_mat 1 (2 * 1) att_ones"
  by (simp add: is_mat_def att_ones_def)

lemma A_und5_mat: "is_mat 5 5 A_und5"
  by (simp add: is_mat_def A_und5_def)

lemma A_isolated_mat: "is_mat 5 5 A_isolated"
  by (simp add: is_mat_def A_isolated_def)

lemma A_und5_sym: "\<forall>i<5. \<forall>j<5. A_und5 ! i ! j = A_und5 ! j ! i"
  by (simp add: all_less_5 A_und5_def)

lemma A_und5_incoming: "\<forall>i<5. \<exists>j<5. A_und5 ! j ! i = 1"
proof -
  have "\<forall>i<5. A_und5 ! i ! i = 1" by (simp add: all_less_5 A_und5_def)
  then show ?thesis by blast
qed

lemma edge_score_ones: "\<forall>i<5. \<forall>j<5. edge_score [[1], [1], [1], [1], [1]] att_ones (j, i) = 2"
  by (simp add: all_less_5 edge_score_def att_ones_def ncols_def leaky_relu_def upt2)

lemma A_isolated_column: "\<forall>s<5. A_isolated ! s ! 0 \<noteq> 1"
  by (simp add: all_less_5 A_isolated_def)

lemma incoming_isolated: "incoming A_isolated 0 = []"
  by (simp add: incoming_def A_isolated_def upt5)

lemma z1_neg: "z1 eye5 W_neg = Inr [[-1], [1], [1], [1], [1]]"
  by (simp add: z1_def dot_def T_def ncols_def column_def eye5_def W_neg_def upt5 upt1)

lemma ec_und5:
  "edge_coords A_und5 = [(0, 0), (0, 1), (1, 0), (1, 1), (2, 2), (3, 3), (4, 4)]"
  by (simp add: edge_coords_def A_und5_def ncols_def upt5)

lemma e_neg:
  "e [[-1], [1], [1], [1], [1]] att_ones [(0, 0), (0, 1), (1, 0), (1, 1), (2, 2), (3, 3), (4, 4)]
     = Inr [[- (1 / 50)], [0], [0], [2], [2], [2], [2]]"
  by (simp add: e_def z2_def take_rows_def dot_def T_def ncols_def column_def att_ones_def
      leaky_relu_def upt2 upt1)

lemma e_matr_neg:
  "e_matr A_und5 [(0, 0), (0, 1), (1, 0), (1, 1), (2, 2), (3, 3), (4, 4)]
       [[- (1 / 50)], [0], [0], [2], [2], [2], [2]]
     = Inr [[- (1 / 50), 0, 0, 0, 0], [0, 2, 0, 0, 0], [0, 0, 2, 0, 0], [0, 0, 0, 2, 0], [0, 0, 0, 0, 2]]"
  by (simp add: e_matr_def set_at_def put_def zeros_def A_und5_def ncols_def
      numeral_eq_Suc)

lemma softmax_vector_single: "softmax_vector [x] = Inr [1]"
  by (simp add: softmax_vector_def)

lemma alpha_node_neg:
  "alpha_node [[- (1 / 50), 0, 0, 0, 0], [0, 2, 0, 0, 0], [0, 0, 2, 0, 0], [0, 0, 0, 2, 0], [0, 0, 0, 0, 2]] 1
     = Inr [1]"
  by (simp add: alpha_node_def column_def ncols_def softmax_vector_single)

lemma alpha_neg:
  "alpha [[- (1 / 50), 0, 0, 0, 0], [0, 2, 0, 0, 0], [0, 0, 2, 0, 0], [0, 0, 0, 2, 0], [0, 0, 0, 0, 2]]
     = Inr [1, 1, 1, 1, 1]"
  by (simp add: alpha_def alpha_node_def column_def ncols_def softmax_vector_single)

lemma A_scaled_neg:
  "A_scaled A_und5 [(0, 0), (0, 1), (1, 0), (1, 1), (2, 2), (3, 3), (4, 4)] [1, 1, 1, 1, 1]
     = Inl ValueError"
  by (simp add: A_scaled_def set_at_def)

lemma ncols_A_und5: "ncols A_und5 = 5"
  by (simp add: A_und5_def ncols_def)

lemma attention_neg: "attention [[-1], [1], [1], [1], [1]] att_ones A_und5 = Inl ValueError"
  by (simp only: attention_def ec_und5 e_neg e_matr_neg ncols_A_und5 alpha_neg A_scaled_neg
      and_then_Inr)

lemma ND_GAT_neg: "ND_GAT eye5 W_neg att_ones A_und5 = Inl ValueError"
  by (simp only: ND_GAT_def z1_neg attention_neg and_then_Inr and_then_Inl)

lemma incoming_und5: "incoming A_und5 1 = [0, 1]"
  by (simp add: incoming_def A_und5_def upt5)

lemma scores_neg:
  "map (\<lambda>j. edge_score [[-1], [1], [1], [1], [1]] att_ones (j, 1)) [0, 1] = [0, 2]"
  by (simp add: edge_score_def att_ones_def ncols_def leaky_relu_def upt2)

text \<open>
  Claim C2 at a graph of five nodes with self-loops and an edge between node 0 and node 1
  in both directions. Node 1 has two incoming edges, from node 0 with score zero and from
  itself with score two. The code keeps the nonzero entries of the column of \<open>e_matr\<close>,
  so the weights of node 1 are the softmax of the single score two, not of the two
  scores of its incoming edges; \<open>alpha\<close> then has five weights for seven edges, and
  storing them into \<open>A_scaled\<close> raises.
\<close>

theorem gat_zero_score_edge_dropped:
  "z1 eye5 W_neg = Inr [[-1], [1], [1], [1], [1]]
   \<and> incoming A_und5 1 = [0, 1]
   \<and> map (\<lambda>j. edge_score [[-1], [1], [1], [1], [1]] att_ones (j, 1)) [0, 1] = [0, 2]
   \<and> and_then (e [[-1], [1], [1], [1], [1]] att_ones (edge_coords A_und5))
        (e_matr A_und5 (edge_coords A_und5))
      = Inr [[- (1 / 50), 0, 0, 0, 0], [0, 2, 0, 0, 0], [0, 0, 2, 0, 0], [0, 0, 0, 2, 0], [0, 0, 0, 0, 2]]
   \<and> alpha_node [[- (1 / 50), 0, 0, 0, 0], [0, 2, 0, 0, 0], [0, 0, 2, 0, 0], [0, 0, 0, 2, 0], [0, 0, 0, 0, 2]] 1
      = Inr [1]
   \<and> ND_GAT eye5 W_neg att_ones A_und5 = Inl ValueError"
  by (simp only: z1_neg incoming_und5 scores_neg ec_und5 e_neg e_matr_neg alpha_node_neg
      ND_GAT_neg and_then_Inr simp_thms)

section \<open>Isolated nodes and symmetry\<close>

text \<open>
  Claim C5, as the code has it. The notebook computes the weights of the nodes 0 to 4.
  When one of these five nodes has no incoming edge, the layer raises: the softmax of
  that node is taken of an empty vector, the maximum of which raises \<open>ValueError\<close>, and
  no output is produced.
\<close>

theorem gat_isolated_node_raises:
  assumes "is_mat n f X" and "is_mat m f W" and "is_mat 1 (2 * m) att"
    and "is_mat n n A" and "5 \<le> n" and "0 < f" and "0 < m"
    and "i < 5" and "incoming A i = []"
  shows "ND_GAT X W att A = Inl ValueError"
proof -
  have "length A = n" by (rule is_mat_length [OF assms(4)])
  with assms(9) have "\<forall>s<n. A ! s ! i \<noteq> 1"
    by (simp add: incoming_def filter_empty_conv)
  with assms(1-8) show ?thesis by (rule gat_isolated_node)
qed

theorem gat_isolated_node_raises_witness:
  "incoming A_isolated 0 = [] \<and> ND_GAT eye5 W_ones att_ones A_isolated = Inl ValueError"
  using gat_isolated_node_raises [OF eye5_mat W_ones_mat att_ones_mat A_isolated_mat _ _ _ _
      incoming_isolated]
  by (simp add: incoming_isolated)

text \<open>
  Five nodes, six edges. Node 0 has no incoming edge, and the layer returns an error, not
  a zero row.
\<close>

theorem gat_isolated_node_counterexample:
  "incoming A_isolated 0 = []
   \<and> ND_GAT eye5 W_ones att_ones A_isolated = Inl ValueError"
  using gat_isolated_node [OF eye5_mat W_ones_mat att_ones_mat A_isolated_mat _ _ _ _
      A_isolated_column]
  by (simp add: incoming_isolated)

lemma A_directed_incoming: "\<forall>i<5. \<exists>j<5. A_directed ! j ! i = 1"
proof -
  have "\<forall>i<5. A_directed ! i ! i = 1" by (simp add: all_less_5 A_directed_def)
  then show ?thesis by blast
qed

lemma gat_directed_mismatch:
  "A_directed ! 0 ! 1 \<noteq> A_directed ! 1 ! 0
   \<and> (\<forall>i<5. \<exists>j<5. A_directed ! j ! i = 1)
   \<and> (\<forall>i<5. \<forall>j<5. edge_score [[1], [1], [1], [1], [1]] att_ones (j, i) \<noteq> 0)
   \<and> z1 eye5 W_ones = Inr [[1], [1], [1], [1], [1]]
   \<and> ND_GAT eye5 W_ones att_ones A_directed = Inr [[3 / 2], [1 / 2], [1], [1], [1]]
   \<and> incoming A_directed 0 = [0]
   \<and> softmax_vector (map (\<lambda>j. edge_score [[1], [1], [1], [1], [1]] att_ones (j, 0)) [0]) = Inr [1]
   \<and> (\<Sum>(w, j)\<leftarrow>zip [1] [0]. w * [[1], [1], [1], [1], [1 :: real]] ! j ! 0) = 1"
proof -
  have "A_directed ! 0 ! 1 \<noteq> A_directed ! 1 ! 0" by (simp add: A_directed_def)
  moreover have "\<forall>i<5. \<forall>j<5. edge_score [[1], [1], [1], [1], [1]] att_ones (j, i) \<noteq> 0"
    using edge_score_ones by simp
  moreover have "softmax_vector (map (\<lambda>j. edge_score [[1], [1], [1], [1], [1]] att_ones (j, 0)) [0]) = Inr [1]"
    by (simp add: softmax_vector_single)
  moreover have "(\<Sum>(w, j)\<leftarrow>zip [1] [0]. w * [[1], [1], [1], [1], [1 :: real]] ! j ! 0) = 1"
    by simp
  ultimately show ?thesis
    using A_directed_incoming z1_ones ND_GAT_directed incoming_directed by blast
qed

lemma W_ones3_mat: "is_mat 1 3 W_ones3"
  by (simp add: is_mat_def W_ones3_def)

lemma upt3: "[0..<3] = [0, 1, 2]"
  by (simp add: upt_rec)

lemma z1_ones3: "z1 eye3 W_ones3 = Inr [[1], [1], [1]]"
  by (simp add: z1_def dot_def T_def ncols_def column_def eye3_def W_ones3_def upt3 upt1)

lemma ec_full3:
  "edge_coords A_full3 = [(0, 0), (0, 1), (0, 2), (1, 0), (1, 1), (1, 2), (2, 0), (2, 1), (2, 2)]"
  by (simp add: edge_coords_def A_full3_def ncols_def upt3)

lemma e_full3:
  "e [[1], [1], [1]] att_ones
       [(0, 0), (0, 1), (0, 2), (1, 0), (1, 1), (1, 2), (2, 0), (2, 1), (2, 2)]
     = Inr [[2], [2], [2], [2], [2], [2], [2], [2], [2]]"
  by (simp add: e_def z2_def take_rows_def dot_def T_def ncols_def column_def att_ones_def
      leaky_relu_def upt2 upt1)

lemma e_matr_full3:
  "e_matr A_full3 [(0, 0), (0, 1), (0, 2), (1, 0), (1, 1), (1, 2), (2, 0), (2, 1), (2, 2)]
       [[2], [2], [2], [2], [2], [2], [2], [2], [2]]
     = Inr [[2, 2, 2], [2, 2, 2], [2, 2, 2]]"
  by (simp add: e_matr_def set_at_def put_def zeros_def A_full3_def ncols_def
      numeral_eq_Suc)

lemma softmax_vector_222: "softmax_vector [2, 2, 2] = Inr [1 / 3, 1 / 3, 1 / 3]"
  by (simp add: softmax_vector_def)

lemma alpha_full3: "alpha [[2, 2, 2], [2, 2, 2], [2, 2, 2]] = Inl IndexError"
  by (simp add: alpha_def alpha_node_def column_def ncols_def softmax_vector_222)

lemma ND_GAT_full3: "ND_GAT eye3 W_ones3 att_ones A_full3 = Inl IndexError"
  by (simp only: ND_GAT_def attention_def z1_ones3 ec_full3 e_full3 e_matr_full3 alpha_full3
      and_then_Inr and_then_Inl)

lemma scores_full3:
  "map (edge_score [[1], [1], [1]] att_ones) (edge_coords A_full3) = [2, 2, 2, 2, 2, 2, 2, 2, 2]"
  by (simp add: ec_full3 edge_score_def att_ones_def ncols_def leaky_relu_def upt2)

lemma T_full3: "T A_full3 = A_full3"
  by (simp add: T_def A_full3_def ncols_def column_def upt3)

text \<open>
  Claim C10, as the code has it. The weights are computed column by column (destination
  by destination) and stored back along the edge list, which runs row by row (source by
  source). The notebook computes the weights of the columns 0 to 4, so the statement is
  about its five nodes. For a symmetric adjacency matrix of five rows and columns in
  which every node has an incoming edge and every edge has a nonzero score, the weight of
  the edge from \<open>j\<close> to \<open>i\<close> is stored at row \<open>i\<close>, column \<open>j\<close> of \<open>A_scaled\<close>, the entries
  without an edge are zero, and row \<open>i\<close> of the output is the sum of the projected
  features of the incoming neighbours of \<open>i\<close>, weighted by the softmax of the scores of
  the incoming edges of \<open>i\<close>. (The entries of the matrix need not be zero or one for
  this.) Without symmetry this fails: on the five-node graph with self-loops and the
  single edge from node 0 to node 1, row 0 of the output is 3/2, where the weighted sum
  over the only incoming neighbour of node 0, itself, is 1.
\<close>

theorem gat_scatter_symmetric:
  "(is_mat 5 f X \<and> is_mat m f W \<and> is_mat 1 (2 * m) att \<and> is_mat 5 5 A
      \<and> 0 < f \<and> 0 < m \<and> z1 X W = Inr Z
      \<and> (\<forall>i<5. \<forall>j<5. A ! i ! j = A ! j ! i)
      \<and> (\<forall>i<5. \<exists>j<5. A ! j ! i = 1)
      \<and> (\<forall>i<5. \<forall>j<5. A ! j ! i = 1 \<longrightarrow> edge_score Z att (j, i) \<noteq> 0)
    \<longrightarrow> (\<exists>As out. attention Z att A = Inr As \<and> is_mat 5 5 As
          \<and> ND_GAT X W att A = Inr out \<and> is_mat 5 m out
          \<and> (\<forall>i<5. \<exists>ws. softmax_vector (map (\<lambda>j. edge_score Z att (j, i)) (incoming A i)) = Inr ws
                \<and> (\<forall>k<length (incoming A i). As ! i ! (incoming A i ! k) = ws ! k)
                \<and> (\<forall>j<5. A ! j ! i \<noteq> 1 \<longrightarrow> As ! i ! j = 0)
                \<and> (\<forall>c<m. out ! i ! c = (\<Sum>(w, j)\<leftarrow>zip ws (incoming A i). w * Z ! j ! c)))))
   \<and> (A_directed ! 0 ! 1 \<noteq> A_directed ! 1 ! 0
      \<and> (\<forall>i<5. \<exists>j<5. A_directed ! j ! i = 1)
      \<and> (\<forall>i<5. \<forall>j<5. edge_score [[1], [1], [1], [1], [1]] att_ones (j, i) \<noteq> 0)
      \<and> z1 eye5 W_ones = Inr [[1], [1], [1], [1], [1]]
      \<and> ND_GAT eye5 W_ones att_ones A_directed = Inr [[3 / 2], [1 / 2], [1], [1], [1]]
      \<and> incoming A_directed 0 = [0]
      \<and> softmax_vector (map (\<lambda>j. edge_score [[1], [1], [1], [1], [1]] att_ones (j, 0)) [0]) = Inr [1]
      \<and> (\<Sum>(w, j)\<leftarrow>zip [1] [0]. w * [[1], [1], [1], [1], [1 :: real]] ! j ! 0) = 1)"
proof (rule conjI [OF impI gat_directed_mismatch])
  assume h: "is_mat 5 f X \<and> is_mat m f W \<and> is_mat 1 (2 * m) att \<and> is_mat 5 5 A
      \<and> 0 < f \<and> 0 < m \<and> z1 X W = Inr Z
      \<and> (\<forall>i<5. \<forall>j<5. A ! i ! j = A ! j ! i)
      \<and> (\<forall>i<5. \<exists>j<5. A ! j ! i = 1)
      \<and> (\<forall>i<5. \<forall>j<5. A ! j ! i = 1 \<longrightarrow> edge_score Z att (j, i) \<noteq> 0)"
  then have X: "is_mat 5 f X" and W: "is_mat m f W" and att: "is_mat 1 (2 * m) att"
    and A: "is_mat 5 5 A" and f: "0 < f" and m: "0 < m" and Z: "z1 X W = Inr Z"
    and sym: "\<forall>i<5. \<forall>j<5. A ! i ! j = A ! j ! i"
    and inc: "\<forall>i<5. \<exists>j<5. A ! j ! i = 1"
    and nz: "\<forall>i<5. \<forall>j<5. A ! j ! i = 1 \<longrightarrow> edge_score Z att (j, i) \<noteq> 0"
    by simp_all
  show "\<exists>As out. attention Z att A = Inr As \<and> is_mat 5 5 As
          \<and> ND_GAT X W att A = Inr out \<and> is_mat 5 m out
          \<and> (\<forall>i<5. \<exists>ws. softmax_vector (map (\<lambda>j. edge_score Z att (j, i)) (incoming A i)) = Inr ws
                \<and> (\<forall>k<length (incoming A i). As ! i ! (incoming A i ! k) = ws ! k)
                \<and> (\<forall>j<5. A ! j ! i \<noteq> 1 \<longrightarrow> As ! i ! j = 0)
                \<and> (\<forall>c<m. out ! i ! c = (\<Sum>(w, j)\<leftarrow>zip ws (incoming A i). w * Z ! j ! c)))"
    by (rule gat_symmetric_rows [OF X W att A refl f m Z sym inc nz])
qed

theorem gat_scatter_symmetric_witness:
  "\<exists>As out. attention [[1], [1], [1], [1], [1]] att_ones A_und5 = Inr As \<and> is_mat 5 5 As
     \<and> ND_GAT eye5 W_ones att_ones A_und5 = Inr out \<and> is_mat 5 1 out"
proof -
  have nz: "\<forall>i<5. \<forall>j<5. A_und5 ! j ! i = 1 \<longrightarrow> edge_score [[1], [1], [1], [1], [1]] att_ones (j, i) \<noteq> 0"
    using edge_score_ones by simp
  have pos: "0 < (5::nat)" "0 < (1::nat)" by simp_all
  from gat_scatter_symmetric [of 5 eye5 1 W_ones att_ones A_und5 "[[1], [1], [1], [1], [1]]"]
    eye5_mat W_ones_mat att_ones_mat A_und5_mat pos z1_ones A_und5_sym A_und5_incoming nz
  show ?thesis by blast
qed

text \<open>
  Three nodes, each a neighbour of each: the matrix is symmetric, every edge has the
  score two, and the layer raises \<open>IndexError\<close> at \<open>alpha3\<close>, which reads column 3 of
  a matrix of three columns.
\<close>

theorem gat_three_nodes_counterexample:
  "T A_full3 = A_full3
   \<and> map (edge_score [[1], [1], [1]] att_ones) (edge_coords A_full3) = [2, 2, 2, 2, 2, 2, 2, 2, 2]
   \<and> z1 eye3 W_ones3 = Inr [[1], [1], [1]]
   \<and> ND_GAT eye3 W_ones3 att_ones A_full3 = Inl IndexError"
  by (simp only: T_full3 scores_full3 z1_ones3 ND_GAT_full3 simp_thms)

end
